theory Spec2Isabelle
  imports Complex_Main "HOL-Library.Word"
begin

section \<open>JavaScript values\<close>

text \<open>
  The codec of \<^verbatim>\<open>format.ts\<close> takes and returns values of type \<^verbatim>\<open>unknown\<close>, so the
  model has one type of run-time values. A number is a finite value (\<open>Finite 0\<close> is +0),
  the negative zero, or one of the three non-finite doubles; a \<^verbatim>\<open>Uint8Array\<close> is a list
  of bytes; a \<^verbatim>\<open>Date\<close> holds its time value in milliseconds, \<open>None\<close> being the time value
  NaN of an Invalid Date. An \<^verbatim>\<open>Error\<close> object has its message, which is not enumerable,
  and its enumerable own properties.

  \<open>JObj ps\<close> is an object whose prototype is \<^verbatim>\<open>Object.prototype\<close>, as an object literal
  and \<^verbatim>\<open>JSON.parse\<close> create it: \<open>ps\<close> are its own properties, all of them enumerable
  data properties, in the order in which the language enumerates them. A property named
  \<^verbatim>\<open>__proto__\<close> in \<open>ps\<close> is an own data property (\<^verbatim>\<open>JSON.parse\<close> creates one).
  \<open>JObjP P ps\<close> is such an object after its prototype was set to \<open>P\<close>, which is null or an
  object: that is what the assignment \<^verbatim>\<open>t["__proto__"] = P\<close> does to a fresh \<^verbatim>\<open>{}\<close>.

  Arrays are dense and have no property besides their elements. Functions, symbols,
  accessor properties other than \<^verbatim>\<open>__proto__\<close> of \<^verbatim>\<open>Object.prototype\<close>, instances of
  classes, and the limits of stack and memory are outside the model. A thrown exception
  is the thrown value: a fallible function returns \<open>Inl\<close> of it.
\<close>

type_synonym byte = "8 word"

datatype number = Finite rat | NegZero | NaN | PosInfinity | NegInfinity

datatype jsval =
    JUndefined
  | JNull
  | JBool bool
  | JNum number
  | JStr string
  | JBytes "byte list"
  | JDate "int option"
  | JArr "jsval list"
  | JObj "(string \<times> jsval) list"
  | JError string "(string \<times> jsval) list"
  | JObjP jsval "(string \<times> jsval) list"

type_synonym props = "(string \<times> jsval) list"

definition new_Error :: "string \<Rightarrow> jsval" where
  "new_Error msg = JError msg []"

definition is_object :: "jsval \<Rightarrow> bool" where
  "is_object v =
     (case v of
        JUndefined \<Rightarrow> False | JNull \<Rightarrow> False | JBool b \<Rightarrow> False | JNum n \<Rightarrow> False
      | JStr s \<Rightarrow> False | _ \<Rightarrow> True)"

section \<open>The libraries the repository calls\<close>

text \<open>
  libsodium, \<^verbatim>\<open>Date\<close> and the text layer of \<^verbatim>\<open>JSON\<close> are not code of the repository.
  They are parameters of the model, collected in one record; what a theorem needs of them
  is stated as a hypothesis of that theorem. \<open>randombytes_buf L n k\<close> is the buffer that the
  \<open>k\<close>-th call of \<^verbatim>\<open>randombytes_buf\<close> in a run returns when asked for \<open>n\<close> bytes, so the state of
  the generator is the number of calls made so far. \<open>JSON_text\<close> writes a value that JSON
  can represent as text, and \<open>JSON_parse\<close> is \<^verbatim>\<open>JSON.parse\<close>. \<open>crypto_box_beforenm\<close> is the
  shared key of a public and a secret key, under which libsodium seals and opens a box.

  Two parameters stand for what an engine does with an object that has a
  \<^verbatim>\<open>Uint8Array\<close> in its prototype chain, on which no theorem below depends:
  \<open>to_hex_object\<close> is \<^verbatim>\<open>sodium.to_hex\<close> on such an object (it passes the test
  \<^verbatim>\<open>instanceof Uint8Array\<close>), and \<open>TypedArray_Set L t k v\<close> is the assignment
  \<^verbatim>\<open>t[k] = v\<close> when the search for \<open>k\<close> reaches the \<^verbatim>\<open>Uint8Array\<close>; each gives the
  result or the exception.
\<close>

record lib =
  toISOString :: "int \<Rightarrow> string"
  Date_parse :: "string \<Rightarrow> int option"
  JSON_text :: "jsval \<Rightarrow> string"
  JSON_parse :: "string \<Rightarrow> jsval + jsval"
  to_hex_object :: "jsval \<Rightarrow> jsval + string"
  TypedArray_Set :: "jsval \<Rightarrow> string \<Rightarrow> jsval \<Rightarrow> jsval + jsval"
  crypto_box_NONCEBYTES :: nat
  crypto_box_SECRETKEYBYTES :: nat
  crypto_scalarmult_base :: "byte list \<Rightarrow> byte list"
  crypto_box_beforenm :: "byte list \<Rightarrow> byte list \<Rightarrow> jsval + byte list"
  randombytes_buf :: "nat \<Rightarrow> nat \<Rightarrow> byte list"
  crypto_box_easy :: "string \<Rightarrow> byte list \<Rightarrow> byte list \<Rightarrow> byte list \<Rightarrow> jsval + byte list"
  crypto_box_open_easy :: "byte list \<Rightarrow> byte list \<Rightarrow> byte list \<Rightarrow> byte list \<Rightarrow> jsval + byte list"

subsection \<open>Strings\<close>

definition startsWith :: "string \<Rightarrow> string \<Rightarrow> bool" where
  "startsWith s p = (take (length p) s = p)"

text \<open>\<^verbatim>\<open>s.replace(pat, rep)\<close> with a string pattern: the first occurrence only.\<close>

fun str_replace :: "string \<Rightarrow> string \<Rightarrow> string \<Rightarrow> string" where
  "str_replace [] pat rep = (if pat = [] then rep else [])"
| "str_replace (c # cs) pat rep =
     (if startsWith (c # cs) pat then rep @ drop (length pat) (c # cs)
      else c # str_replace cs pat rep)"

fun decimal :: "nat \<Rightarrow> string" where
  "decimal n =
     (if n < 10 then [char_of (48 + n)]
      else decimal (n div 10) @ [char_of (48 + n mod 10)])"

declare decimal.simps [simp del]

definition is_digit :: "char \<Rightarrow> bool" where
  "is_digit c = (48 \<le> (of_char c :: nat) \<and> (of_char c :: nat) \<le> 57)"

definition read_decimal :: "string \<Rightarrow> nat" where
  "read_decimal s = foldl (\<lambda>a c. 10 * a + (of_char c - 48)) 0 s"

text \<open>
  A string is its UTF-8 bytes: libsodium turns a string message into bytes, and
  \<^verbatim>\<open>Buffer.from(message).toString()\<close> reads them back.
\<close>

definition from_string :: "string \<Rightarrow> byte list" where
  "from_string s = map (\<lambda>c. word_of_nat (of_char c)) s"

definition Buffer_toString :: "byte list \<Rightarrow> string" where
  "Buffer_toString bs = map (\<lambda>b. char_of (unat b)) bs"

subsection \<open>Hexadecimal\<close>

text \<open>
  \<^verbatim>\<open>sodium.to_hex\<close> writes two lowercase digits per byte, the high nibble first.
  \<^verbatim>\<open>sodium.from_hex\<close> reads digits of either case, two per byte, and throws at the first
  character that is not a digit ("incomplete input" between two bytes, "invalid input"
  inside one) and on an odd number of digits.
\<close>

definition hexdigit :: "nat \<Rightarrow> char" where
  "hexdigit n = char_of (if n < 10 then 48 + n else 87 + n)"

definition to_hex :: "byte list \<Rightarrow> string" where
  "to_hex bs = concat (map (\<lambda>b. [hexdigit (unat b div 16), hexdigit (unat b mod 16)]) bs)"

definition hexval :: "char \<Rightarrow> nat option" where
  "hexval c =
     (let n = (of_char c :: nat) in
      if 48 \<le> n \<and> n \<le> 57 then Some (n - 48)
      else if 97 \<le> n \<and> n \<le> 102 then Some (n - 87)
      else if 65 \<le> n \<and> n \<le> 70 then Some (n - 55)
      else None)"

fun from_hex :: "string \<Rightarrow> jsval + byte list" where
  "from_hex [] = Inr []"
| "from_hex [a] =
     Inl (new_Error (if hexval a = None then ''incomplete input'' else ''invalid input''))"
| "from_hex (a # b # cs) =
     (case hexval a of
        None \<Rightarrow> Inl (new_Error ''incomplete input'')
      | Some h \<Rightarrow>
          (case hexval b of
             None \<Rightarrow> Inl (new_Error ''invalid input'')
           | Some l \<Rightarrow>
               (case from_hex cs of
                  Inl e \<Rightarrow> Inl e
                | Inr bs \<Rightarrow> Inr (word_of_nat (16 * h + l) # bs))))"

text \<open>What \<^verbatim>\<open>from_hex\<close> accepts: an even number of characters, all of them digits.\<close>

definition valid_hex :: "string \<Rightarrow> bool" where
  "valid_hex s = (even (length s) \<and> list_all (\<lambda>c. hexval c \<noteq> None) s)"

section \<open>Objects\<close>

subsection \<open>The order of the properties of an object\<close>

text \<open>
  The language enumerates the own properties of an object with the array indices first,
  in ascending order, and then the other names in the order of their creation
  (OrdinaryOwnPropertyKeys). An array index is the decimal text, without leading zeros,
  of an integer below 4294967295. \<open>key_before a b\<close>: a property named \<open>b\<close> that is created
  when \<open>a\<close> exists is enumerated after \<open>a\<close>. A list of names is in the order of enumeration
  when it is sorted by this relation; the property list of every object is.
\<close>

definition array_index :: "string \<Rightarrow> nat option" where
  "array_index k =
     (if k \<noteq> [] \<and> list_all is_digit k \<and> decimal (read_decimal k) = k
         \<and> read_decimal k < 4294967295
      then Some (read_decimal k) else None)"

definition key_before :: "string \<Rightarrow> string \<Rightarrow> bool" where
  "key_before a b =
     (case array_index a of
        None \<Rightarrow> array_index b = None
      | Some m \<Rightarrow> (case array_index b of None \<Rightarrow> True | Some n \<Rightarrow> m < n))"

definition enumeration_order :: "string list \<Rightarrow> bool" where
  "enumeration_order ks = sorted_wrt key_before ks"

text \<open>
  Creating the own property \<open>k\<close>, and \<open>own_put\<close>: the value of an own property is
  replaced where it is, a new property is created.
\<close>

fun insert_prop :: "props \<Rightarrow> string \<Rightarrow> jsval \<Rightarrow> props" where
  "insert_prop [] k v = [(k, v)]"
| "insert_prop (p # ps) k v =
     (if key_before (fst p) k then p # insert_prop ps k v else (k, v) # p # ps)"

definition own_put :: "props \<Rightarrow> string \<Rightarrow> jsval \<Rightarrow> props" where
  "own_put ps k v =
     (if k \<in> fst ` set ps then map (\<lambda>p. if fst p = k then (k, v) else p) ps
      else insert_prop ps k v)"

subsection \<open>Assignment to a property\<close>

text \<open>
  \<^verbatim>\<open>t[k] = v\<close> on an object \<open>t\<close> that has no own property \<open>k\<close> searches the prototype
  chain of \<open>t\<close> for \<open>k\<close> (OrdinarySet). What it meets decides: a data property, which in
  every object of the model and in the built-in prototypes is writable, or no property at
  all, and the assignment creates an own property of \<open>t\<close>; the accessor \<^verbatim>\<open>__proto__\<close> of
  \<^verbatim>\<open>Object.prototype\<close>, and its setter is called; a \<^verbatim>\<open>Uint8Array\<close>, which has a search
  of its own. \<open>inherited P k\<close> is the search from the object \<open>P\<close> on. A chain that ends in
  null does not reach \<^verbatim>\<open>Object.prototype\<close>.
\<close>

datatype found = Creates | Setter | Exotic

definition Object_prototype :: "string \<Rightarrow> found" where
  "Object_prototype k = (if k = ''__proto__'' then Setter else Creates)"

fun inherited :: "jsval \<Rightarrow> string \<Rightarrow> found" where
  "inherited (JObjP P ps) k = (if k \<in> fst ` set ps then Creates else inherited P k)"
| "inherited (JObj ps) k = (if k \<in> fst ` set ps then Creates else Object_prototype k)"
| "inherited (JError m ps) k = (if k \<in> fst ` set ps then Creates else Object_prototype k)"
| "inherited (JArr xs) k = Object_prototype k"
| "inherited (JDate d) k = Object_prototype k"
| "inherited (JBytes bs) k = Exotic"
| "inherited v k = Creates"

text \<open>
  The setter of \<^verbatim>\<open>__proto__\<close> makes an object or null the prototype of \<open>t\<close> and ignores
  every other value. \<open>assign L t k v\<close> is the object \<open>t\<close> after \<^verbatim>\<open>t[k] = v\<close>, for an object
  \<open>t\<close> that started as \<^verbatim>\<open>{}\<close>.
\<close>

definition set_prototype :: "props \<Rightarrow> jsval \<Rightarrow> jsval \<Rightarrow> jsval" where
  "set_prototype ps v t = (if is_object v \<or> v = JNull then JObjP v ps else t)"

definition assign :: "lib \<Rightarrow> jsval \<Rightarrow> string \<Rightarrow> jsval \<Rightarrow> jsval + jsval" where
  "assign L t k v =
     (case t of
        JObj ps \<Rightarrow>
          (if k \<in> fst ` set ps then Inr (JObj (own_put ps k v))
           else (case Object_prototype k of
                   Creates \<Rightarrow> Inr (JObj (own_put ps k v))
                 | Setter \<Rightarrow> Inr (set_prototype ps v t)
                 | Exotic \<Rightarrow> TypedArray_Set L t k v))
      | JObjP P ps \<Rightarrow>
          (if k \<in> fst ` set ps then Inr (JObjP P (own_put ps k v))
           else (case inherited P k of
                   Creates \<Rightarrow> Inr (JObjP P (own_put ps k v))
                 | Setter \<Rightarrow> Inr (set_prototype ps v t)
                 | Exotic \<Rightarrow> TypedArray_Set L t k v))
      | _ \<Rightarrow> Inr t)"

subsection \<open>Enumeration\<close>

text \<open>
  The index properties of a \<^verbatim>\<open>Uint8Array\<close>, each a number, and of an array. \<open>for_in o\<close>
  is what \<^verbatim>\<open>for (b in o)\<close> visits, each name \<open>b\<close> with the value of \<^verbatim>\<open>o[b]\<close>: the own
  enumerable properties, then those of the prototype that no own property hides. No
  built-in prototype has an enumerable property. The codec enumerates objects only, and
  a prototype is an object or null.
\<close>

definition indexed :: "byte list \<Rightarrow> props" where
  "indexed bs =
     map (\<lambda>i. (decimal i, JNum (Finite (of_nat (unat (bs ! i)))))) [0..<length bs]"

definition elements :: "jsval list \<Rightarrow> props" where
  "elements xs = map (\<lambda>i. (decimal i, xs ! i)) [0..<length xs]"

fun for_in :: "jsval \<Rightarrow> props" where
  "for_in (JObj ps) = ps"
| "for_in (JError m ps) = ps"
| "for_in (JObjP P ps) = ps @ filter (\<lambda>p. fst p \<notin> fst ` set ps) (for_in P)"
| "for_in (JArr xs) = elements xs"
| "for_in (JBytes bs) = indexed bs"
| "for_in v = []"

text \<open>
  \<^verbatim>\<open>instanceof\<close> looks for the prototype of the class along the prototype chain, so an
  object whose chain passes through a \<^verbatim>\<open>Uint8Array\<close> or a \<^verbatim>\<open>Date\<close> is an instance too.
\<close>

fun instanceof_Uint8Array :: "jsval \<Rightarrow> bool" where
  "instanceof_Uint8Array (JBytes bs) = True"
| "instanceof_Uint8Array (JObjP P ps) = instanceof_Uint8Array P"
| "instanceof_Uint8Array v = False"

fun instanceof_Date :: "jsval \<Rightarrow> bool" where
  "instanceof_Date (JDate d) = True"
| "instanceof_Date (JObjP P ps) = instanceof_Date P"
| "instanceof_Date v = False"

section \<open>The wire codec (format.ts)\<close>

text \<open>
  A loop that calls a fallible function on every element stops at the first exception.
\<close>

fun traverse :: "('a \<Rightarrow> 'e + 'b) \<Rightarrow> 'a list \<Rightarrow> 'e + 'b list" where
  "traverse f [] = Inr []"
| "traverse f (x # xs) =
     (case f x of
        Inl e \<Rightarrow> Inl e
      | Inr y \<Rightarrow> (case traverse f xs of Inl e \<Rightarrow> Inl e | Inr ys \<Rightarrow> Inr (y # ys)))"

lemma traverse_cong [fundef_cong]:
  "xs = ys \<Longrightarrow> (\<And>x. x \<in> set ys \<Longrightarrow> f x = g x) \<Longrightarrow> traverse f xs = traverse g ys"
  by (induction ys arbitrary: xs) (auto split: sum.splits)

text \<open>
  The loop \<^verbatim>\<open>for (b in o) t[b] = f(o[b])\<close> on the properties that \<^verbatim>\<open>for ... in\<close>
  visits, from the object \<open>t\<close> on: the value is computed, then assigned.
\<close>

fun rebuild :: "lib \<Rightarrow> (jsval \<Rightarrow> jsval + jsval) \<Rightarrow> props \<Rightarrow> jsval \<Rightarrow> jsval + jsval" where
  "rebuild L f [] t = Inr t"
| "rebuild L f (p # ps) t =
     (case f (snd p) of
        Inl e \<Rightarrow> Inl e
      | Inr w \<Rightarrow> (case assign L t (fst p) w of Inl e \<Rightarrow> Inl e | Inr t' \<Rightarrow> rebuild L f ps t'))"

lemma rebuild_cong [fundef_cong]:
  "ps = qs \<Longrightarrow> t = u \<Longrightarrow> (\<And>p. p \<in> set qs \<Longrightarrow> f (snd p) = g (snd p)) \<Longrightarrow>
   rebuild L f ps t = rebuild L g qs u"
  by (induction qs arbitrary: ps t u) (auto split: sum.splits)

lemma size_own:
  "p \<in> set ps \<Longrightarrow> size (snd p) < size_list (size_prod (\<lambda>x. 0) size) (ps :: props)"
proof -
  assume a: "p \<in> set ps"
  have "size (snd p) < size_prod (\<lambda>x. 0) size p" by (cases p) simp
  then show ?thesis using a by (rule size_list_estimation [rotated])
qed

lemma size_for_in: "p \<in> set (for_in v) \<Longrightarrow> size (snd p) \<le> size v"
proof (induction v arbitrary: p rule: for_in.induct)
  case (1 ps)
  then show ?case using size_own [of p ps] by simp
next
  case (2 m ps)
  then show ?case using size_own [of p ps] by simp
next
  case (3 P ps)
  show ?case
  proof (cases "p \<in> set ps")
    case True
    then show ?thesis using size_own [of p ps] by simp
  next
    case False
    then have "p \<in> set (for_in P)" using 3(2) by auto
    then have "size (snd p) \<le> size P" by (rule 3(1))
    then show ?thesis by simp
  qed
next
  case (4 xs)
  then obtain i where "i < length xs" "snd p = xs ! i" by (auto simp: elements_def)
  then have "snd p \<in> set xs" by simp
  then have "size (snd p) \<le> size_list size xs" by (simp add: size_list_estimation')
  then show ?case by simp
next
  case (5 bs)
  then show ?case by (auto simp: indexed_def)
qed simp_all

text \<open>
  \<^verbatim>\<open>autoencode\<close>: null; an instance of \<^verbatim>\<open>Uint8Array\<close>; an array; an instance of
  \<^verbatim>\<open>Date\<close>, whose \<^verbatim>\<open>toISOString\<close> throws a RangeError on an Invalid Date and a
  TypeError on an object that is not a \<^verbatim>\<open>Date\<close>; any other object, rebuilt from what
  \<^verbatim>\<open>for ... in\<close> visits; everything else is returned as it is.
\<close>

function (sequential) autoencode :: "lib \<Rightarrow> jsval \<Rightarrow> jsval + jsval" where
  "autoencode L JNull = Inr JNull"
| "autoencode L (JBytes bs) = Inr (JStr (''hex$'' @ to_hex bs))"
| "autoencode L (JArr xs) =
     (case traverse (autoencode L) xs of Inl e \<Rightarrow> Inl e | Inr t \<Rightarrow> Inr (JArr t))"
| "autoencode L (JDate d) =
     (case d of
        None \<Rightarrow> Inl (new_Error ''Invalid time value'')
      | Some t \<Rightarrow> Inr (JStr (''date$'' @ toISOString L t)))"
| "autoencode L (JObj ps) = rebuild L (autoencode L) (for_in (JObj ps)) (JObj [])"
| "autoencode L (JError m ps) = rebuild L (autoencode L) (for_in (JError m ps)) (JObj [])"
| "autoencode L (JObjP P ps) =
     (if instanceof_Uint8Array P then
        (case to_hex_object L (JObjP P ps) of
           Inl e \<Rightarrow> Inl e
         | Inr h \<Rightarrow> Inr (JStr (''hex$'' @ h)))
      else if instanceof_Date P then Inl (new_Error ''TypeError'')
      else rebuild L (autoencode L) (for_in (JObjP P ps)) (JObj []))"
| "autoencode L v = Inr v"
  by pat_completeness auto

termination autoencode
proof (relation "measure (\<lambda>(L, v). size v)")
  show "wf (measure (\<lambda>(L :: lib, v :: jsval). size v))" by simp
next
  fix L :: lib and xs :: "jsval list" and x
  assume "x \<in> set xs"
  then have "size x \<le> size_list size xs" by (simp add: size_list_estimation')
  then show "((L, x), (L, JArr xs)) \<in> measure (\<lambda>(L, v). size v)" by simp
next
  fix L :: lib and ps :: props and p
  assume "p \<in> set (for_in (JObj ps))"
  then show "((L, snd p), (L, JObj ps)) \<in> measure (\<lambda>(L, v). size v)"
    using size_own [of p ps] by simp
next
  fix L :: lib and m :: string and ps :: props and p
  assume "p \<in> set (for_in (JError m ps))"
  then show "((L, snd p), (L, JError m ps)) \<in> measure (\<lambda>(L, v). size v)"
    using size_own [of p ps] by simp
next
  fix L :: lib and P :: jsval and ps :: props and p
  assume "p \<in> set (for_in (JObjP P ps))"
  then have "p \<in> set ps \<or> p \<in> set (for_in P)" by auto
  then have "size (snd p) \<le> size P + size_list (size_prod (\<lambda>x. 0) size) ps"
    using size_own [of p ps] size_for_in [of p P] by auto
  then show "((L, snd p), (L, JObjP P ps)) \<in> measure (\<lambda>(L, v). size v)" by simp
qed

text \<open>
  \<^verbatim>\<open>autodecode\<close>: null; a string with one of the two tags (\<^verbatim>\<open>new Date(s)\<close> does not
  throw: a string it cannot read gives an Invalid Date); an array; any other object,
  rebuilt from what \<^verbatim>\<open>for ... in\<close> visits (the indices of a \<^verbatim>\<open>Uint8Array\<close>, nothing
  of a \<^verbatim>\<open>Date\<close>); everything else, an untagged string too, is returned as it is.
\<close>

function (sequential) autodecode :: "lib \<Rightarrow> jsval \<Rightarrow> jsval + jsval" where
  "autodecode L JNull = Inr JNull"
| "autodecode L (JStr e) =
     (if startsWith e ''hex$'' then
        (case from_hex (str_replace e ''hex$'' '''') of
           Inl x \<Rightarrow> Inl x
         | Inr bs \<Rightarrow> Inr (JBytes bs))
      else if startsWith e ''date$'' then
        Inr (JDate (Date_parse L (str_replace e ''date$'' '''')))
      else Inr (JStr e))"
| "autodecode L (JArr xs) =
     (case traverse (autodecode L) xs of Inl e \<Rightarrow> Inl e | Inr t \<Rightarrow> Inr (JArr t))"
| "autodecode L (JObj ps) = rebuild L (autodecode L) (for_in (JObj ps)) (JObj [])"
| "autodecode L (JError m ps) = rebuild L (autodecode L) (for_in (JError m ps)) (JObj [])"
| "autodecode L (JObjP P ps) = rebuild L (autodecode L) (for_in (JObjP P ps)) (JObj [])"
| "autodecode L (JBytes bs) = Inr (JObj (indexed bs))"
| "autodecode L (JDate d) = Inr (JObj [])"
| "autodecode L v = Inr v"
  by pat_completeness auto

termination autodecode
proof (relation "measure (\<lambda>(L, v). size v)")
  show "wf (measure (\<lambda>(L :: lib, v :: jsval). size v))" by simp
next
  fix L :: lib and xs :: "jsval list" and x
  assume "x \<in> set xs"
  then have "size x \<le> size_list size xs" by (simp add: size_list_estimation')
  then show "((L, x), (L, JArr xs)) \<in> measure (\<lambda>(L, v). size v)" by simp
next
  fix L :: lib and ps :: props and p
  assume "p \<in> set (for_in (JObj ps))"
  then show "((L, snd p), (L, JObj ps)) \<in> measure (\<lambda>(L, v). size v)"
    using size_own [of p ps] by simp
next
  fix L :: lib and m :: string and ps :: props and p
  assume "p \<in> set (for_in (JError m ps))"
  then show "((L, snd p), (L, JError m ps)) \<in> measure (\<lambda>(L, v). size v)"
    using size_own [of p ps] by simp
next
  fix L :: lib and P :: jsval and ps :: props and p
  assume "p \<in> set (for_in (JObjP P ps))"
  then have "p \<in> set ps \<or> p \<in> set (for_in P)" by auto
  then have "size (snd p) \<le> size P + size_list (size_prod (\<lambda>x. 0) size) ps"
    using size_own [of p ps] size_for_in [of p P] by auto
  then show "((L, snd p), (L, JObjP P ps)) \<in> measure (\<lambda>(L, v). size v)" by simp
qed

subsection \<open>The values the codec supports\<close>

text \<open>
  A time value is an integer number of milliseconds of absolute value at most
  8.64e15. A supported value is a finite nesting of null, booleans, numbers, strings that
  do not start with a reserved tag, byte buffers, timestamps, arrays and plain objects.
  A plain object has the prototype \<^verbatim>\<open>Object.prototype\<close> and no own property named
  \<^verbatim>\<open>__proto__\<close>; that its property names are distinct and in the order of enumeration
  holds of every object. An Invalid Date has no time value and is not a timestamp;
  undefined and \<^verbatim>\<open>Error\<close> objects are not supported values either.
\<close>

definition valid_time :: "int \<Rightarrow> bool" where
  "valid_time t = (\<bar>t\<bar> \<le> 8640000000000000)"

definition plain_names :: "string list \<Rightarrow> bool" where
  "plain_names ks = (distinct ks \<and> enumeration_order ks \<and> ''__proto__'' \<notin> set ks)"

fun supported :: "jsval \<Rightarrow> bool" where
  "supported JUndefined = False"
| "supported JNull = True"
| "supported (JBool b) = True"
| "supported (JNum n) = True"
| "supported (JStr s) = (\<not> startsWith s ''hex$'' \<and> \<not> startsWith s ''date$'')"
| "supported (JBytes bs) = True"
| "supported (JDate d) = (case d of None \<Rightarrow> False | Some t \<Rightarrow> valid_time t)"
| "supported (JArr xs) = list_all supported xs"
| "supported (JObj ps) = (plain_names (map fst ps) \<and> list_all (\<lambda>p. supported (snd p)) ps)"
| "supported (JError m ps) = False"
| "supported (JObjP P ps) = False"

text \<open>The wire form: only null, booleans, numbers, strings, arrays and plain objects.\<close>

fun wire_form :: "jsval \<Rightarrow> bool" where
  "wire_form JNull = True"
| "wire_form (JBool b) = True"
| "wire_form (JNum n) = True"
| "wire_form (JStr s) = True"
| "wire_form (JArr xs) = list_all wire_form xs"
| "wire_form (JObj ps) = (plain_names (map fst ps) \<and> list_all (\<lambda>p. wire_form (snd p)) ps)"
| "wire_form v = False"

text \<open>
  The numbers that JSON writes as they are: the finite ones other than the negative zero.
\<close>

fun JSON_numbers :: "jsval \<Rightarrow> bool" where
  "JSON_numbers (JNum n) = (case n of Finite q \<Rightarrow> True | _ \<Rightarrow> False)"
| "JSON_numbers (JArr xs) = list_all JSON_numbers xs"
| "JSON_numbers (JObj ps) = list_all (\<lambda>p. JSON_numbers (snd p)) ps"
| "JSON_numbers (JError m ps) = list_all (\<lambda>p. JSON_numbers (snd p)) ps"
| "JSON_numbers (JObjP P ps) = list_all (\<lambda>p. JSON_numbers (snd p)) ps"
| "JSON_numbers v = True"

section \<open>JSON\<close>

text \<open>
  \<^verbatim>\<open>JSON.stringify\<close> first turns a value into one that JSON can represent (the
  SerializeJSONProperty operation of ECMAScript) and then writes it as text. A number that
  is not finite becomes null and the negative zero becomes 0; undefined has no text,
  becomes null in an array and is left out of an object; a \<^verbatim>\<open>Date\<close> is replaced by its
  \<^verbatim>\<open>toJSON()\<close>; every other object is written with its own enumerable properties. An
  object that is not a \<^verbatim>\<open>Date\<close> and inherits \<^verbatim>\<open>toJSON\<close> from one ends in the
  TypeError of that method; a property \<^verbatim>\<open>toJSON\<close> whose value is not a function is
  not called.
\<close>

fun inherits_toJSON :: "jsval \<Rightarrow> bool" where
  "inherits_toJSON (JDate d) = True"
| "inherits_toJSON (JObjP P ps) = (''toJSON'' \<notin> fst ` set ps \<and> inherits_toJSON P)"
| "inherits_toJSON v = False"

definition present :: "(string \<times> jsval option) list \<Rightarrow> props" where
  "present qs = concat (map (\<lambda>q. case snd q of None \<Rightarrow> [] | Some w \<Rightarrow> [(fst q, w)]) qs)"

fun SerializeJSONProperty :: "lib \<Rightarrow> jsval \<Rightarrow> jsval + jsval option" where
  "SerializeJSONProperty L JUndefined = Inr None"
| "SerializeJSONProperty L JNull = Inr (Some JNull)"
| "SerializeJSONProperty L (JBool b) = Inr (Some (JBool b))"
| "SerializeJSONProperty L (JNum n) =
     Inr (Some (case n of
                  Finite q \<Rightarrow> JNum (Finite q) | NegZero \<Rightarrow> JNum (Finite 0) | _ \<Rightarrow> JNull))"
| "SerializeJSONProperty L (JStr s) = Inr (Some (JStr s))"
| "SerializeJSONProperty L (JBytes bs) = Inr (Some (JObj (indexed bs)))"
| "SerializeJSONProperty L (JDate d) =
     Inr (Some (case d of None \<Rightarrow> JNull | Some t \<Rightarrow> JStr (toISOString L t)))"
| "SerializeJSONProperty L (JArr xs) =
     (case traverse (SerializeJSONProperty L) xs of
        Inl e \<Rightarrow> Inl e
      | Inr ys \<Rightarrow> Inr (Some (JArr (map (\<lambda>y. case y of None \<Rightarrow> JNull | Some w \<Rightarrow> w) ys))))"
| "SerializeJSONProperty L (JObj ps) =
     (case traverse (\<lambda>p. case SerializeJSONProperty L (snd p) of
                            Inl e \<Rightarrow> Inl e | Inr y \<Rightarrow> Inr (fst p, y)) ps of
        Inl e \<Rightarrow> Inl e
      | Inr qs \<Rightarrow> Inr (Some (JObj (present qs))))"
| "SerializeJSONProperty L (JError m ps) =
     (case traverse (\<lambda>p. case SerializeJSONProperty L (snd p) of
                            Inl e \<Rightarrow> Inl e | Inr y \<Rightarrow> Inr (fst p, y)) ps of
        Inl e \<Rightarrow> Inl e
      | Inr qs \<Rightarrow> Inr (Some (JObj (present qs))))"
| "SerializeJSONProperty L (JObjP P ps) =
     (if inherits_toJSON (JObjP P ps) then Inl (new_Error ''TypeError'')
      else (case traverse (\<lambda>p. case SerializeJSONProperty L (snd p) of
                                  Inl e \<Rightarrow> Inl e | Inr y \<Rightarrow> Inr (fst p, y)) ps of
              Inl e \<Rightarrow> Inl e
            | Inr qs \<Rightarrow> Inr (Some (JObj (present qs)))))"

definition JSON_stringify :: "lib \<Rightarrow> jsval \<Rightarrow> jsval + string option" where
  "JSON_stringify L v =
     (case SerializeJSONProperty L v of
        Inl e \<Rightarrow> Inl e
      | Inr y \<Rightarrow> Inr (map_option (JSON_text L) y))"

section \<open>The envelope (payload.ts)\<close>

text \<open>
  \<open>encrypt\<close> takes the number \<open>k\<close> of calls of \<^verbatim>\<open>randombytes_buf\<close> made so far and
  returns it updated. The envelope is the nonce followed by the ciphertext. libsodium
  rejects an undefined message, which is what it gets when \<^verbatim>\<open>JSON.stringify\<close> returns
  undefined.
\<close>

definition encrypt ::
  "lib \<Rightarrow> jsval \<Rightarrow> byte list \<Rightarrow> byte list \<Rightarrow> nat \<Rightarrow> (jsval + byte list) \<times> nat" where
  "encrypt L input recipientKey secretKey k =
     (case autoencode L input of
        Inl e \<Rightarrow> (Inl e, k)
      | Inr o' \<Rightarrow>
          (case JSON_stringify L o' of
             Inl e \<Rightarrow> (Inl e, k)
           | Inr plaintext \<Rightarrow>
               (let outputNonce = randombytes_buf L (crypto_box_NONCEBYTES L) k
                in case plaintext of
                     None \<Rightarrow> (Inl (new_Error ''message cannot be null or undefined''), Suc k)
                   | Some text \<Rightarrow>
                       (case crypto_box_easy L text outputNonce recipientKey secretKey of
                          Inl e \<Rightarrow> (Inl e, Suc k)
                        | Inr outputCipher \<Rightarrow> (Inr (outputNonce @ outputCipher), Suc k)))))"

text \<open>
  \<open>decrypt\<close>: the first \<^verbatim>\<open>crypto_box_NONCEBYTES\<close> bytes are the nonce, the rest is
  the ciphertext. Nothing catches what \<^verbatim>\<open>crypto_box_open_easy\<close>, \<^verbatim>\<open>JSON.parse\<close> or
  \<^verbatim>\<open>autodecode\<close> throw.
\<close>

definition decrypt :: "lib \<Rightarrow> byte list \<Rightarrow> byte list \<Rightarrow> byte list \<Rightarrow> jsval + jsval" where
  "decrypt L payload senderKey secretKey =
     (let nonce = take (crypto_box_NONCEBYTES L) payload;
          ciphertext = drop (crypto_box_NONCEBYTES L) payload
      in case crypto_box_open_easy L ciphertext nonce senderKey secretKey of
           Inl e \<Rightarrow> Inl e
         | Inr message \<Rightarrow>
             (case JSON_parse L (Buffer_toString message) of
                Inl e \<Rightarrow> Inl e
              | Inr e \<Rightarrow> autodecode L e))"

text \<open>
  The callers of \<open>decrypt\<close> pass a value they only assert to be a \<^verbatim>\<open>Uint8Array\<close>. A
  string has \<^verbatim>\<open>slice\<close> too, and libsodium reads a string as its bytes; any other value
  ends in a TypeError.
\<close>

definition decrypt_unknown :: "lib \<Rightarrow> jsval \<Rightarrow> byte list \<Rightarrow> byte list \<Rightarrow> jsval + jsval" where
  "decrypt_unknown L payload senderKey secretKey =
     (case payload of
        JBytes bs \<Rightarrow> decrypt L bs senderKey secretKey
      | JStr s \<Rightarrow> decrypt L (from_string s) senderKey secretKey
      | _ \<Rightarrow> Inl (new_Error ''TypeError''))"

subsection \<open>What the envelope needs of libsodium\<close>

text \<open>
  A key pair is a secret key of the right length with the public key derived from it. A
  box sealed to the recipient's public key under the sender's secret key opens under the
  sender's public key and the recipient's secret key, to the bytes of the message.
  \<^verbatim>\<open>randombytes_buf\<close> returns as many bytes as it is asked for.
\<close>

definition valid_keypair :: "lib \<Rightarrow> byte list \<Rightarrow> byte list \<Rightarrow> bool" where
  "valid_keypair L sk pk =
     (length sk = crypto_box_SECRETKEYBYTES L \<and> pk = crypto_scalarmult_base L sk)"

definition box_opens :: "lib \<Rightarrow> bool" where
  "box_opens L =
     (\<forall>m n skA pkA skB pkB.
        valid_keypair L skA pkA \<and> valid_keypair L skB pkB \<and> length n = crypto_box_NONCEBYTES L \<longrightarrow>
        (\<exists>c. crypto_box_easy L m n pkB skA = Inr c
           \<and> crypto_box_open_easy L c n pkA skB = Inr (from_string m)))"

definition random_length :: "lib \<Rightarrow> bool" where
  "random_length L = (\<forall>n k. length (randombytes_buf L n k) = n)"


definition key_agreement :: "lib \<Rightarrow> bool" where
  "key_agreement L =
     (\<forall>skA pkA skB pkB.
        valid_keypair L skA pkA \<and> valid_keypair L skB pkB \<longrightarrow>
        (\<exists>K. crypto_box_beforenm L pkB skA = Inr K \<and> crypto_box_beforenm L pkA skB = Inr K))"

definition flip_bit_255 :: "byte list \<Rightarrow> byte list" where
  "flip_bit_255 pk = pk[31 := pk ! 31 + 128]"






text \<open>
  \<^verbatim>\<open>toISOString\<close> and the \<^verbatim>\<open>Date\<close> constructor are inverse on time values (ECMAScript
  requires \<^verbatim>\<open>Date.parse(x.toISOString())\<close> to be the time value of \<^verbatim>\<open>x\<close>), and
  \<^verbatim>\<open>JSON.parse\<close> reads back the text of a given value.
\<close>

definition Date_contract :: "lib \<Rightarrow> bool" where
  "Date_contract L = (\<forall>t. valid_time t \<longrightarrow> Date_parse L (toISOString L t) = Some t)"

definition JSON_reads_back :: "lib \<Rightarrow> jsval \<Rightarrow> bool" where
  "JSON_reads_back L w = (JSON_parse L (JSON_text L w) = Inr w)"

text \<open>
  \<open>codec_pair L v w\<close>: \<open>w\<close> is the wire form of \<open>v\<close>, and decodes to \<open>v\<close> when the \<^verbatim>\<open>Date\<close>
  functions are inverse.
\<close>

definition codec_pair :: "lib \<Rightarrow> jsval \<Rightarrow> jsval \<Rightarrow> bool" where
  "codec_pair L v w =
     (autoencode L v = Inr w \<and> wire_form w
      \<and> (JSON_numbers v \<longrightarrow> JSON_numbers w)
      \<and> (Date_contract L \<longrightarrow> autodecode L w = Inr v))"

section \<open>The client (client.ts)\<close>

record client =
  baseURL :: string
  userID :: "string option"
  privateKey :: "byte list option"
  publicKey :: "byte list option"
  serverKey :: "byte list option"

definition isloggedIn :: "client \<Rightarrow> bool" where
  "isloggedIn c =
     (userID c \<noteq> None \<and> privateKey c \<noteq> None \<and> publicKey c \<noteq> None \<and> serverKey c \<noteq> None)"

definition logout :: "client \<Rightarrow> client" where
  "logout c = c\<lparr>userID := None, privateKey := None, publicKey := None, serverKey := None\<rparr>"

text \<open>
  The transport is a parameter: \<open>fetch url body\<close> is the response to a POST, or the
  exception of a failed request. A call returns its result together with the requests it
  issued, in order. The parameter \<^verbatim>\<open>data\<close> of \<^verbatim>\<open>rawCall\<close> defaults to \<^verbatim>\<open>{}\<close>.
\<close>

record response =
  status :: nat
  statusText :: string
  json_body :: string

datatype request = Fetch string "string option"

type_synonym transport = "string \<Rightarrow> string option \<Rightarrow> jsval + response"

definition rawCall ::
  "lib \<Rightarrow> transport \<Rightarrow> client \<Rightarrow> string \<Rightarrow> jsval \<Rightarrow> (jsval + jsval) \<times> request list" where
  "rawCall L fetch c rpcName data =
     (case autoencode L (if data = JUndefined then JObj [] else data) of
        Inl e \<Rightarrow> (Inl e, [])
      | Inr w \<Rightarrow>
          (case JSON_stringify L w of
             Inl e \<Rightarrow> (Inl e, [])
           | Inr body \<Rightarrow>
               (let url = baseURL c @ ''/'' @ rpcName
                in case fetch url body of
                     Inl e \<Rightarrow> (Inl e, [Fetch url body])
                   | Inr r \<Rightarrow>
                       (case JSON_parse L (json_body r) of
                          Inl e \<Rightarrow> (Inl e, [Fetch url body])
                        | Inr j \<Rightarrow>
                            (case autodecode L j of
                               Inl e \<Rightarrow> (Inl e, [Fetch url body])
                             | Inr rData \<Rightarrow>
                                 if status r \<noteq> 200
                                 then (Inl (new_Error (statusText r)), [Fetch url body])
                                 else (Inr rData, [Fetch url body]))))))"

definition call ::
  "lib \<Rightarrow> transport \<Rightarrow> client \<Rightarrow> string \<Rightarrow> jsval \<Rightarrow> (jsval + jsval) \<times> request list" where
  "call L fetch c name args = rawCall L fetch c name args"

definition encryptedCall ::
  "lib \<Rightarrow> transport \<Rightarrow> client \<Rightarrow> string \<Rightarrow> jsval \<Rightarrow> nat
     \<Rightarrow> (jsval + jsval) \<times> request list \<times> nat" where
  "encryptedCall L fetch c name args k =
     (if \<not> isloggedIn c then (Inl (new_Error []), [], k)
      else
        (let a = (if args = JUndefined then JObj [] else args)
         in case encrypt L a (the (serverKey c)) (the (privateKey c)) k of
              (Inl e, k') \<Rightarrow> (Inl e, [], k')
            | (Inr encryptedBody, k') \<Rightarrow>
                (case rawCall L fetch c name
                        (JObj [(''payload'', JBytes encryptedBody),
                               (''id'', JStr (the (userID c)))]) of
                   (Inl e, reqs) \<Rightarrow> (Inl e, reqs, k')
                 | (Inr resp, reqs) \<Rightarrow>
                     (decrypt_unknown L resp (the (serverKey c)) (the (privateKey c)),
                      reqs, k'))))"

section \<open>The server (server.ts)\<close>

text \<open>
  A run of a route handler is the list of what it does, in order: the calls of the
  application's handler function with their arguments, the calls of
  \<^verbatim>\<open>res.status(s).json(b)\<close>, and last the exception it ends with when nothing catches
  one. What the transport does with a response written after another is not modelled.
\<close>

datatype rpc_user = RPCUser (user_id: string) (user_publicKey: "byte list")

datatype event =
    Invoke jsval
  | InvokeAs "rpc_user option" jsval
  | Respond nat jsval
  | Uncaught jsval

text \<open>The catch block of both handlers: \<^verbatim>\<open>res.status(500).json(autoencode(error))\<close>.\<close>

definition respond_500 :: "lib \<Rightarrow> jsval \<Rightarrow> event list" where
  "respond_500 L error =
     (case autoencode L error of Inl e \<Rightarrow> [Uncaught e] | Inr w \<Rightarrow> [Respond 500 w])"

definition handle :: "lib \<Rightarrow> (jsval \<Rightarrow> jsval + jsval) \<Rightarrow> string \<Rightarrow> event list" where
  "handle L fn body =
     (case JSON_parse L body of
        Inl error \<Rightarrow> respond_500 L error
      | Inr j \<Rightarrow>
          (case autodecode L j of
             Inl error \<Rightarrow> respond_500 L error
           | Inr decodedBody \<Rightarrow>
               Invoke decodedBody #
               (case fn decodedBody of
                  Inl error \<Rightarrow> respond_500 L error
                | Inr output \<Rightarrow>
                    (case autoencode L output of
                       Inl error \<Rightarrow> respond_500 L error
                     | Inr w \<Rightarrow> [Respond 200 w]))))"

text \<open>
  Reading the property \<^verbatim>\<open>id\<close> or \<^verbatim>\<open>payload\<close> of the decoded body: a TypeError on null
  and undefined; on an object its own property, or else the one it inherits; undefined on
  every other value (no built-in prototype has a property of either name).
\<close>

fun inherited_value :: "jsval \<Rightarrow> string \<Rightarrow> jsval" where
  "inherited_value (JObj ps) k = (case map_of ps k of None \<Rightarrow> JUndefined | Some x \<Rightarrow> x)"
| "inherited_value (JError m ps) k = (case map_of ps k of None \<Rightarrow> JUndefined | Some x \<Rightarrow> x)"
| "inherited_value (JObjP P ps) k =
     (case map_of ps k of None \<Rightarrow> inherited_value P k | Some x \<Rightarrow> x)"
| "inherited_value v k = JUndefined"

definition get_prop :: "jsval \<Rightarrow> string \<Rightarrow> jsval + jsval" where
  "get_prop v k =
     (case v of
        JUndefined \<Rightarrow> Inl (new_Error ''TypeError'')
      | JNull \<Rightarrow> Inl (new_Error ''TypeError'')
      | _ \<Rightarrow> Inr (inherited_value v k))"

text \<open>
  The inner \<^verbatim>\<open>try\<close> of the encrypted handler assigns \<^verbatim>\<open>identity\<close> and then
  \<^verbatim>\<open>decryptedPayload\<close>; the result is the two variables as the block leaves them, and
  the exception if it threw.
\<close>

definition resolve ::
  "lib \<Rightarrow> byte list \<Rightarrow> (jsval \<Rightarrow> jsval + rpc_user) \<Rightarrow> jsval
     \<Rightarrow> rpc_user option \<times> jsval \<times> jsval option" where
  "resolve L serverPrivateKey getUser decodedBody =
     (case get_prop decodedBody ''id'' of
        Inl e \<Rightarrow> (None, JUndefined, Some e)
      | Inr uid \<Rightarrow>
          (case getUser uid of
             Inl e \<Rightarrow> (None, JUndefined, Some e)
           | Inr identity \<Rightarrow>
               (case get_prop decodedBody ''payload'' of
                  Inl e \<Rightarrow> (Some identity, JUndefined, Some e)
                | Inr payload \<Rightarrow>
                    (case decrypt_unknown L payload (user_publicKey identity) serverPrivateKey of
                       Inl e \<Rightarrow> (Some identity, JUndefined, Some e)
                     | Inr decryptedPayload \<Rightarrow> (Some identity, decryptedPayload, None)))))"

text \<open>
  What follows the inner \<^verbatim>\<open>try\<close>: the handler function is called, an undefined result
  is replaced by \<^verbatim>\<open>{}\<close>, \<^verbatim>\<open>identity.publicKey\<close> is read (a TypeError when
  \<^verbatim>\<open>identity\<close> is undefined), and the sealed result is sent.
\<close>

definition invoke_and_reply ::
  "lib \<Rightarrow> byte list \<Rightarrow> (rpc_user option \<Rightarrow> jsval \<Rightarrow> jsval + jsval)
     \<Rightarrow> rpc_user option \<Rightarrow> jsval \<Rightarrow> nat \<Rightarrow> event list \<times> nat" where
  "invoke_and_reply L serverPrivateKey fn identity decryptedPayload k =
     (case fn identity decryptedPayload of
        Inl error \<Rightarrow> (InvokeAs identity decryptedPayload # respond_500 L error, k)
      | Inr out \<Rightarrow>
          (let output = (if out = JUndefined then JObj [] else out)
           in case identity of
                None \<Rightarrow>
                  (InvokeAs identity decryptedPayload # respond_500 L (new_Error ''TypeError''),
                   k)
              | Some u \<Rightarrow>
                  (case encrypt L output (user_publicKey u) serverPrivateKey k of
                     (Inl error, k') \<Rightarrow>
                       (InvokeAs identity decryptedPayload # respond_500 L error, k')
                   | (Inr encryptedOutput, k') \<Rightarrow>
                       (case autoencode L (JBytes encryptedOutput) of
                          Inl error \<Rightarrow>
                            (InvokeAs identity decryptedPayload # respond_500 L error, k')
                        | Inr w \<Rightarrow>
                            ([InvokeAs identity decryptedPayload, Respond 200 w], k')))))"

text \<open>
  The encrypted handler. The \<^verbatim>\<open>catch\<close> of the inner \<^verbatim>\<open>try\<close> writes the 401 response
  and does not return: the code after the block runs in either case.
\<close>

definition encryptedHandle ::
  "lib \<Rightarrow> byte list \<Rightarrow> (jsval \<Rightarrow> jsval + rpc_user)
     \<Rightarrow> (rpc_user option \<Rightarrow> jsval \<Rightarrow> jsval + jsval) \<Rightarrow> string \<Rightarrow> nat \<Rightarrow> event list \<times> nat" where
  "encryptedHandle L serverPrivateKey getUser fn body k =
     (case JSON_parse L body of
        Inl error \<Rightarrow> (respond_500 L error, k)
      | Inr j \<Rightarrow>
          (case autodecode L j of
             Inl error \<Rightarrow> (respond_500 L error, k)
           | Inr decodedBody \<Rightarrow>
               (case resolve L serverPrivateKey getUser decodedBody of
                  (identity, decryptedPayload, None) \<Rightarrow>
                    invoke_and_reply L serverPrivateKey fn identity decryptedPayload k
                | (identity, decryptedPayload, Some _) \<Rightarrow>
                    (case autoencode L (JObj [(''message'', JStr ''No such user found.'')]) of
                       Inl error \<Rightarrow> (respond_500 L error, k)
                     | Inr w \<Rightarrow>
                         (let (evs, k') =
                                invoke_and_reply L serverPrivateKey fn identity decryptedPayload k
                          in (Respond 401 w # evs, k'))))))"

section \<open>An instance of the library parameters\<close>

text \<open>
  A small library that meets every contract above, for evaluating the model on concrete
  inputs. Timestamps are written as a sign and decimal milliseconds; JSON knows the texts
  of a few values. Keys have 32 bytes and a public key counts without its bit 255, as in
  X25519; the shared key is the sum of the two public keys, and a box is the shared key,
  the nonce, a checksum of the whole and the message in clear, which is enough to open
  under the matching shared key and nonce only, and to reject a changed byte.
\<close>

definition example_toISOString :: "int \<Rightarrow> string" where
  "example_toISOString t = (if t < 0 then CHR ''-'' else CHR ''+'') # decimal (nat \<bar>t\<bar>)"

definition example_Date_parse :: "string \<Rightarrow> int option" where
  "example_Date_parse s =
     (case s of
        [] \<Rightarrow> None
      | c # r \<Rightarrow>
          if r \<noteq> [] \<and> list_all is_digit r \<and> (c = CHR ''+'' \<or> c = CHR ''-'')
          then Some (if c = CHR ''-'' then - int (read_decimal r) else int (read_decimal r))
          else None)"

definition quoted :: "string \<Rightarrow> string" where
  "quoted s = CHR 0x22 # s @ [CHR 0x22]"

definition example_value :: jsval where
  "example_value =
     JObj [(''7'', JNum (Finite 0)),
           (''key'', JBytes [0x0a, 0xff]),
           (''when'', JDate (Some 1600000000000)),
           (''list'', JArr [JNull, JBool True, JNum (Finite 3), JStr ''hi'', JArr [], JObj []])]"

definition example_wire :: jsval where
  "example_wire =
     JObj [(''7'', JNum (Finite 0)),
           (''key'', JStr ''hex$0aff''),
           (''when'', JStr ''date$+1600000000000''),
           (''list'', JArr [JNull, JBool True, JNum (Finite 3), JStr ''hi'', JArr [], JObj []])]"

text \<open>
  The envelope of the message \<open>text\<close> between the two example key pairs, sealed with the
  nonce \<open>n\<close>.
\<close>

definition example_seal :: "byte list \<Rightarrow> byte list \<Rightarrow> byte list \<Rightarrow> byte list" where
  "example_seal K n bs = K @ n @ sum_list (K @ n @ bs) # bs"

definition example_envelope :: "byte list \<Rightarrow> string \<Rightarrow> byte list" where
  "example_envelope n text = n @ example_seal (replicate 32 8) n (from_string text)"

definition example_nonce :: "nat \<Rightarrow> byte list" where
  "example_nonce k = replicate 24 (word_of_nat k)"


text \<open>An encrypted call with no input, as the client sends it, and the server's reply.\<close>

definition example_call :: jsval where
  "example_call =
     JObj [(''payload'', JStr (''hex$'' @ to_hex (example_envelope (example_nonce 0) ''{}''))),
           (''id'', JStr ''alice'')]"

definition example_call_text :: string where
  "example_call_text =
     ''{'' @ quoted ''payload'' @ '':''
     @ quoted (''hex$'' @ to_hex (example_envelope (example_nonce 0) ''{}''))
     @ '','' @ quoted ''id'' @ '':'' @ quoted ''alice'' @ ''}''"

definition example_reply :: jsval where
  "example_reply = JStr (''hex$'' @ to_hex (example_envelope (example_nonce 0) ''true''))"

definition example_reply_text :: string where
  "example_reply_text = quoted (''hex$'' @ to_hex (example_envelope (example_nonce 0) ''true''))"

definition example_JSON :: "(jsval \<times> string) list" where
  "example_JSON =
     [(JNull, ''null''),
      (JBool True, ''true''),
      (JNum (Finite 0), ''0''),
      (JArr [JNull], ''[null]''),
      (JObj [], ''{}''),
      (example_wire,
       ''{'' @ quoted ''7'' @ '':0,'' @ quoted ''key'' @ '':'' @ quoted ''hex$0aff'' @ '','' @
       quoted ''when'' @ '':'' @ quoted ''date$+1600000000000'' @ '','' @
       quoted ''list'' @ '':[null,true,3,'' @ quoted ''hi'' @ '',[],{}]}''),
      (example_call, example_call_text),
      (example_reply, example_reply_text)]"

definition example_JSON_text :: "jsval \<Rightarrow> string" where
  "example_JSON_text w = (case map_of example_JSON w of None \<Rightarrow> [] | Some s \<Rightarrow> s)"

definition example_JSON_parse :: "string \<Rightarrow> jsval + jsval" where
  "example_JSON_parse s =
     (case map_of (map (\<lambda>p. (snd p, fst p)) example_JSON) s of
        None \<Rightarrow> Inl (new_Error ''SyntaxError'')
      | Some w \<Rightarrow> Inr w)"

definition clear_bit_255 :: "byte list \<Rightarrow> byte list" where
  "clear_bit_255 pk = pk[31 := take_bit 7 (pk ! 31)]"

definition example_scalarmult_base :: "byte list \<Rightarrow> byte list" where
  "example_scalarmult_base sk = clear_bit_255 (map (\<lambda>b. b + 1) sk)"

definition example_beforenm :: "byte list \<Rightarrow> byte list \<Rightarrow> jsval + byte list" where
  "example_beforenm pk sk =
     (if length pk \<noteq> 32 \<or> length sk \<noteq> 32 then Inl (new_Error ''invalid length'')
      else Inr (map2 (+) (clear_bit_255 pk) (example_scalarmult_base sk)))"

definition example_box_easy ::
  "string \<Rightarrow> byte list \<Rightarrow> byte list \<Rightarrow> byte list \<Rightarrow> jsval + byte list" where
  "example_box_easy m n pk sk =
     (case example_beforenm pk sk of
        Inl e \<Rightarrow> Inl e
      | Inr K \<Rightarrow>
          if length n \<noteq> 24 then Inl (new_Error ''invalid length'')
          else Inr (example_seal K n (from_string m)))"

definition example_box_open_easy ::
  "byte list \<Rightarrow> byte list \<Rightarrow> byte list \<Rightarrow> byte list \<Rightarrow> jsval + byte list" where
  "example_box_open_easy c n pk sk =
     (case example_beforenm pk sk of
        Inl e \<Rightarrow> Inl e
      | Inr K \<Rightarrow>
          if length n \<noteq> 24 then Inl (new_Error ''invalid length'')
          else if c = example_seal K n (drop 57 c) then Inr (drop 57 c)
          else Inl (new_Error ''incorrect key pair for the given ciphertext''))"

definition example_lib :: lib where
  "example_lib =
     \<lparr> toISOString = example_toISOString,
       Date_parse = example_Date_parse,
       JSON_text = example_JSON_text,
       JSON_parse = example_JSON_parse,
       to_hex_object = (\<lambda>v. Inl (new_Error ''TypeError'')),
       TypedArray_Set = (\<lambda>t k v. Inr t),
       crypto_box_NONCEBYTES = 24,
       crypto_box_SECRETKEYBYTES = 32,
       crypto_scalarmult_base = example_scalarmult_base,
       crypto_box_beforenm = example_beforenm,
       randombytes_buf = (\<lambda>n k. replicate n (word_of_nat k)),
       crypto_box_easy = example_box_easy,
       crypto_box_open_easy = example_box_open_easy \<rparr>"

text \<open>The same library in a run in which the generator returns the same bytes twice.\<close>

definition example_lib_repeating :: lib where
  "example_lib_repeating = example_lib\<lparr> randombytes_buf := (\<lambda>n k. replicate n 0) \<rparr>"

text \<open>The key pairs of a user (A) and of the server (B), and the user's client.\<close>

definition example_skA :: "byte list" where
  "example_skA = replicate 32 1"

definition example_pkA :: "byte list" where
  "example_pkA = replicate 32 2"

definition example_skB :: "byte list" where
  "example_skB = replicate 32 5"

definition example_pkB :: "byte list" where
  "example_pkB = replicate 32 6"

definition example_client :: client where
  "example_client =
     \<lparr> baseURL = ''/rpc'', userID = Some ''alice'', privateKey = Some example_skA,
       publicKey = Some example_pkA, serverKey = Some example_pkB \<rparr>"

definition example_getUser :: "jsval \<Rightarrow> jsval + rpc_user" where
  "example_getUser uid =
     (if uid = JStr ''alice'' then Inr (RPCUser ''alice'' example_pkA)
      else Inl (new_Error ''unknown user''))"

text \<open>
  A server with one encrypted endpoint whose handler returns true, as the transport of
  the example client.
\<close>

definition example_server :: transport where
  "example_server url body =
     (case body of
        None \<Rightarrow> Inl (new_Error ''TypeError'')
      | Some b \<Rightarrow>
          (case fst (encryptedHandle example_lib example_skB example_getUser
                       (\<lambda>identity input. Inr (JBool True)) b 0) of
             [InvokeAs u x, Respond s w] \<Rightarrow>
               Inr \<lparr> status = s, statusText = ''OK'', json_body = JSON_text example_lib w \<rparr>
           | _ \<Rightarrow> Inl (new_Error ''no response'')))"

text \<open>
  An error as Node.js raises it for a missing file: the message is not enumerable, the
  properties \<^verbatim>\<open>code\<close> and \<^verbatim>\<open>path\<close> are.
\<close>

definition example_error :: jsval where
  "example_error =
     JError ''ENOENT: no such file or directory''
       [(''code'', JStr ''ENOENT''), (''path'', JStr ''/srv/keys/server.key'')]"

text \<open>
  Two objects as \<^verbatim>\<open>JSON.parse\<close> returns them for the texts \<^verbatim>\<open>{"__proto__":5}\<close> and
  \<^verbatim>\<open>{"__proto__":{"a":1}}\<close>: each has one own property, named \<^verbatim>\<open>__proto__\<close>.
\<close>

definition example_proto_number :: jsval where
  "example_proto_number = JObj [(''__proto__'', JNum (Finite 5))]"

definition example_proto_object :: jsval where
  "example_proto_object = JObj [(''__proto__'', JObj [(''a'', JNum (Finite 1))])]"

section \<open>Lemmas\<close>

subsection \<open>Hexadecimal and strings\<close>

lemma hexval_hexdigit: "n < 16 \<Longrightarrow> hexval (hexdigit n) = Some n"
  by (auto simp: hexval_def hexdigit_def Let_def)

lemma unat_byte_div16: "unat (b :: byte) div 16 < 16"
  using unsigned_less [of b, where ?'a = nat] by simp

lemma from_hex_to_hex: "from_hex (to_hex bs) = Inr bs"
  by (induction bs) (simp_all add: to_hex_def hexval_hexdigit unat_byte_div16)

lemma from_hex_invalid: "\<not> valid_hex s \<Longrightarrow> \<exists>e. from_hex s = Inl e"
proof (induction s rule: from_hex.induct)
  case 1
  then show ?case by (simp add: valid_hex_def)
next
  case (2 a)
  then show ?case by simp
next
  case (3 a b cs)
  show ?case
  proof (cases "hexval a = None \<or> hexval b = None")
    case True
    then show ?thesis by (auto split: option.splits)
  next
    case False
    then have "\<not> valid_hex cs" using 3 by (auto simp: valid_hex_def)
    then obtain e where "from_hex cs = Inl e" using 3 False by auto
    then show ?thesis using False by (auto split: option.splits)
  qed
qed

lemma tag_prefixes:
  "startsWith (''hex$'' @ s) ''hex$''"
  "\<not> startsWith (''date$'' @ s) ''hex$''"
  "startsWith (''date$'' @ s) ''date$''"
  "str_replace (''hex$'' @ s) ''hex$'' [] = s"
  "str_replace (''date$'' @ s) ''date$'' [] = s"
  by (simp_all add: startsWith_def)

lemma Buffer_toString_from_string: "Buffer_toString (from_string s) = s"
proof -
  have "char_of (unat (word_of_nat (of_char c :: nat) :: byte)) = c" for c
  proof -
    have "of_char c < (256 :: nat)" by simp
    then have "unat (word_of_nat (of_char c :: nat) :: byte) = of_char c"
      by (simp add: unat_of_nat)
    then show ?thesis by simp
  qed
  then show ?thesis by (simp add: Buffer_toString_def from_string_def map_idI)
qed


subsection \<open>Loops over arrays and objects\<close>

lemma traverse_Inr_I:
  "list_all2 (\<lambda>x y. f x = Inr y) xs ys \<Longrightarrow> traverse f xs = Inr ys"
  by (induction xs ys rule: list_all2_induct) auto

lemma ex_list_all2: "(\<And>x. x \<in> set xs \<Longrightarrow> \<exists>y. P x y) \<Longrightarrow> \<exists>ys. list_all2 P xs ys"
proof (induction xs)
  case Nil
  then show ?case by simp
next
  case (Cons x xs)
  obtain y where "P x y" using Cons.prems by auto
  moreover obtain ys where "list_all2 P xs ys" using Cons by auto
  ultimately have "list_all2 P (x # xs) (y # ys)" by simp
  then show ?case by blast
qed

text \<open>
  A property whose name comes after all the names of an object is created last, and
  the loop over the properties of a plain object builds another plain object with the
  same names.
\<close>

lemma insert_prop_last:
  "\<forall>p \<in> set ps. key_before (fst p) k \<Longrightarrow> insert_prop ps k v = ps @ [(k, v)]"
  by (induction ps) simp_all

lemma assign_plain:
  assumes "plain_names (map fst ps @ [k])"
  shows "assign L (JObj ps) k v = Inr (JObj (ps @ [(k, v)]))"
proof -
  have k: "k \<notin> fst ` set ps" "k \<noteq> ''__proto__''"
    and "\<forall>p \<in> set ps. key_before (fst p) k"
    using assms by (auto simp: plain_names_def enumeration_order_def sorted_wrt_append)
  then have "own_put ps k v = ps @ [(k, v)]" by (simp add: own_put_def insert_prop_last)
  then show ?thesis using k by (simp add: assign_def Object_prototype_def)
qed

lemma rebuild_plain:
  assumes "list_all2 (\<lambda>p q. fst q = fst p \<and> f (snd p) = Inr (snd q)) ps qs"
    and "plain_names (map fst (acc @ ps))"
  shows "rebuild L f ps (JObj acc) = Inr (JObj (acc @ qs))"
  using assms
proof (induction ps qs arbitrary: acc rule: list_all2_induct)
  case Nil
  then show ?case by simp
next
  case (Cons p ps q qs)
  have n: "plain_names (map fst acc @ [fst p])"
    using Cons.prems
    by (auto simp: plain_names_def enumeration_order_def sorted_wrt_append)
  have a: "assign L (JObj acc) (fst p) (snd q) = Inr (JObj (acc @ [q]))"
    using assign_plain [OF n, of L "snd q"] Cons.hyps(1) by (cases q) simp
  have "plain_names (map fst ((acc @ [q]) @ ps))" using Cons.prems Cons.hyps(1) by simp
  then have "rebuild L f ps (JObj (acc @ [q])) = Inr (JObj ((acc @ [q]) @ qs))"
    by (rule Cons.IH)
  then show ?case using a Cons.hyps(1) by simp
qed

subsection \<open>The codec on supported values\<close>

lemma codec_pair_list:
  assumes "list_all2 (codec_pair L) xs ws"
  shows "traverse (autoencode L) xs = Inr ws"
    "Date_contract L \<Longrightarrow> traverse (autodecode L) ws = Inr xs"
    "list_all wire_form ws" "list_all JSON_numbers xs \<Longrightarrow> list_all JSON_numbers ws"
  using assms by (induction xs ws rule: list_all2_induct) (auto simp: codec_pair_def)

lemma codec_pair_props:
  assumes "list_all2 (\<lambda>p q. fst q = fst p \<and> codec_pair L (snd p) (snd q)) ps qs"
  shows "list_all2 (\<lambda>p q. fst q = fst p \<and> autoencode L (snd p) = Inr (snd q)) ps qs"
    "Date_contract L \<Longrightarrow>
     list_all2 (\<lambda>q p. fst p = fst q \<and> autodecode L (snd q) = Inr (snd p)) qs ps"
    "map fst qs = map fst ps"
    "list_all (\<lambda>p. wire_form (snd p)) qs"
    "list_all (\<lambda>p. JSON_numbers (snd p)) ps \<Longrightarrow> list_all (\<lambda>p. JSON_numbers (snd p)) qs"
  using assms by (induction ps qs rule: list_all2_induct) (auto simp: codec_pair_def)

text \<open>Every supported value has a wire form: \<open>autoencode\<close> does not throw on it.\<close>

lemma codec_pair_ex: "supported v \<Longrightarrow> \<exists>w. codec_pair L v w"
proof (induction v)
  case (JArr xs)
  have "\<exists>ws. list_all2 (codec_pair L) xs ws"
    using JArr by (intro ex_list_all2) (auto simp: list_all_iff)
  then obtain ws where ws: "list_all2 (codec_pair L) xs ws" ..
  have "codec_pair L (JArr xs) (JArr ws)"
    using codec_pair_list [OF ws] by (simp add: codec_pair_def)
  then show ?case ..
next
  case (JObj ps)
  have "\<exists>qs. list_all2 (\<lambda>p q. fst q = fst p \<and> codec_pair L (snd p) (snd q)) ps qs"
  proof (intro ex_list_all2)
    fix p assume p: "p \<in> set ps"
    then have "supported (snd p)" using JObj.prems by (simp add: list_all_iff)
    moreover have "snd p \<in> Basic_BNFs.snds p" by (cases p) simp
    ultimately obtain w where "codec_pair L (snd p) w" using JObj.IH p by blast
    then have "fst (fst p, w) = fst p \<and> codec_pair L (snd p) (snd (fst p, w))" by simp
    then show "\<exists>q. fst q = fst p \<and> codec_pair L (snd p) (snd q)" by blast
  qed
  then obtain qs
    where qs: "list_all2 (\<lambda>p q. fst q = fst p \<and> codec_pair L (snd p) (snd q)) ps qs" ..
  have n: "plain_names (map fst ([] @ ps))" "plain_names (map fst ([] @ qs))"
    using JObj.prems codec_pair_props(3) [OF qs] by simp_all
  have e: "autoencode L (JObj ps) = Inr (JObj qs)"
    using rebuild_plain [OF codec_pair_props(1) [OF qs] n(1), of L] by simp
  have d: "autodecode L (JObj qs) = Inr (JObj ps)" if "Date_contract L"
    using rebuild_plain [OF codec_pair_props(2) [OF qs that] n(2), of L] by simp
  have "codec_pair L (JObj ps) (JObj qs)"
    using e d codec_pair_props(3,4,5) [OF qs] n by (simp add: codec_pair_def)
  then show ?case ..
next
  case (JDate d)
  then obtain t where t: "d = Some t" "valid_time t" by (cases d) auto
  then have "Date_contract L \<longrightarrow> Date_parse L (toISOString L t) = Some t"
    by (simp add: Date_contract_def)
  then have "codec_pair L (JDate d) (JStr (''date$'' @ toISOString L t))"
    using t by (simp add: codec_pair_def tag_prefixes del: append.simps)
  then show ?case ..
next
  case (JBytes bs)
  have "codec_pair L (JBytes bs) (JStr (''hex$'' @ to_hex bs))"
    by (simp add: codec_pair_def tag_prefixes from_hex_to_hex del: append.simps)
  then show ?case ..
next
  case JNull
  have "codec_pair L JNull JNull" by (simp add: codec_pair_def)
  then show ?case ..
next
  case (JBool b)
  have "codec_pair L (JBool b) (JBool b)" by (simp add: codec_pair_def)
  then show ?case ..
next
  case (JNum n)
  have "codec_pair L (JNum n) (JNum n)" by (simp add: codec_pair_def)
  then show ?case ..
next
  case (JStr s)
  then have "codec_pair L (JStr s) (JStr s)" by (simp add: codec_pair_def)
  then show ?case ..
qed simp_all

text \<open>Encoding leaves a value in wire form as it is.\<close>

lemma wire_form_autoencode: "wire_form w \<Longrightarrow> autoencode L w = Inr w"
proof (induction w)
  case (JArr xs)
  then have "list_all2 (\<lambda>x y. autoencode L x = Inr y) xs xs"
    by (simp add: list_all2_same list_all_iff)
  then show ?case by (simp add: traverse_Inr_I)
next
  case (JObj ps)
  have "list_all2 (\<lambda>p q. fst q = fst p \<and> autoencode L (snd p) = Inr (snd q)) ps ps"
    unfolding list_all2_same
  proof
    fix p assume p: "p \<in> set ps"
    moreover have "snd p \<in> Basic_BNFs.snds p" by (cases p) simp
    moreover have "wire_form (snd p)" using JObj.prems p by (simp add: list_all_iff)
    ultimately have "autoencode L (snd p) = Inr (snd p)" using JObj.IH by blast
    then show "fst p = fst p \<and> autoencode L (snd p) = Inr (snd p)" by simp
  qed
  moreover have "plain_names (map fst ([] @ ps))" using JObj.prems by simp
  ultimately have "rebuild L (autoencode L) ps (JObj []) = Inr (JObj ([] @ ps))"
    by (rule rebuild_plain)
  then show ?case by simp
qed simp_all

text \<open>
  \<^verbatim>\<open>JSON.stringify\<close> writes a value in wire form as it is when its numbers are finite
  and none is the negative zero.
\<close>

lemma serialize_wire_form:
  "wire_form w \<Longrightarrow> JSON_numbers w \<Longrightarrow> SerializeJSONProperty L w = Inr (Some w)"
proof (induction w)
  case (JNum n)
  then show ?case by (cases n) simp_all
next
  case (JArr xs)
  then have "list_all2 (\<lambda>x y. SerializeJSONProperty L x = Inr y) xs (map Some xs)"
    by (simp add: list_all2_map2 list_all2_same list_all_iff)
  then have "traverse (SerializeJSONProperty L) xs = Inr (map Some xs)"
    by (rule traverse_Inr_I)
  then show ?case by (simp add: comp_def)
next
  case (JObj ps)
  have "list_all2
          (\<lambda>p q. (case SerializeJSONProperty L (snd p) of
                     Inl e \<Rightarrow> Inl e | Inr y \<Rightarrow> Inr (fst p, y)) = Inr q)
          ps (map (\<lambda>p. (fst p, Some (snd p))) ps)"
    unfolding list_all2_map2 list_all2_same
  proof
    fix p assume p: "p \<in> set ps"
    moreover have "snd p \<in> Basic_BNFs.snds p" by (cases p) simp
    moreover have "wire_form (snd p)" "JSON_numbers (snd p)"
      using JObj.prems p by (simp_all add: list_all_iff)
    ultimately have "SerializeJSONProperty L (snd p) = Inr (Some (snd p))"
      using JObj.IH by blast
    then show "(case SerializeJSONProperty L (snd p) of
                  Inl e \<Rightarrow> Inl e | Inr y \<Rightarrow> Inr (fst p, y)) = Inr (fst p, Some (snd p))"
      by simp
  qed
  then have "traverse (\<lambda>p. case SerializeJSONProperty L (snd p) of
                             Inl e \<Rightarrow> Inl e | Inr y \<Rightarrow> Inr (fst p, y)) ps
             = Inr (map (\<lambda>p. (fst p, Some (snd p))) ps)"
    by (rule traverse_Inr_I)
  moreover have "present (map (\<lambda>p. (fst p, Some (snd p))) ps) = ps"
    by (induction ps) (simp_all add: present_def)
  ultimately show ?case by simp
qed simp_all

lemma supported_wire:
  assumes "supported v" and "JSON_numbers v" and "autoencode L v = Inr w"
  shows "SerializeJSONProperty L w = Inr (Some w)"
    and "Date_contract L \<Longrightarrow> autodecode L w = Inr v"
proof -
  obtain w' where p: "codec_pair L v w'" using codec_pair_ex [OF assms(1)] ..
  then have "w' = w" using assms(3) by (simp add: codec_pair_def)
  then have "codec_pair L v w" using p by simp
  then show "SerializeJSONProperty L w = Inr (Some w)"
    and "Date_contract L \<Longrightarrow> autodecode L w = Inr v"
    using assms(2) by (simp_all add: codec_pair_def serialize_wire_form)
qed

subsection \<open>The envelope\<close>

text \<open>
  Sealing draws the nonce of the \<open>k\<close>-th call and puts it in front of the box; opening
  the envelope under the matching keys gives what \<^verbatim>\<open>JSON.parse\<close> and \<open>autodecode\<close> make of
  the text that was sealed.
\<close>

lemma encrypt_then_decrypt:
  assumes box: "box_opens L" and rnd: "random_length L"
    and kA: "valid_keypair L skA pkA" and kB: "valid_keypair L skB pkB"
    and enc: "autoencode L v = Inr w" and ser: "SerializeJSONProperty L w = Inr (Some w')"
  shows "\<exists>c. crypto_box_easy L (JSON_text L w') (randombytes_buf L (crypto_box_NONCEBYTES L) k)
               pkB skA = Inr c
           \<and> encrypt L v pkB skA k
              = (Inr (randombytes_buf L (crypto_box_NONCEBYTES L) k @ c), Suc k)
           \<and> decrypt L (randombytes_buf L (crypto_box_NONCEBYTES L) k @ c) pkA skB
              = (case JSON_parse L (JSON_text L w') of Inl e \<Rightarrow> Inl e | Inr j \<Rightarrow> autodecode L j)"
proof -
  let ?n = "randombytes_buf L (crypto_box_NONCEBYTES L) k"
  have len: "length ?n = crypto_box_NONCEBYTES L" using rnd by (simp add: random_length_def)
  obtain c where c: "crypto_box_easy L (JSON_text L w') ?n pkB skA = Inr c"
      "crypto_box_open_easy L c ?n pkA skB = Inr (from_string (JSON_text L w'))"
    using box kA kB len unfolding box_opens_def by blast
  have "encrypt L v pkB skA k = (Inr (?n @ c), Suc k)"
    using enc ser c(1) by (simp add: encrypt_def JSON_stringify_def)
  moreover have "decrypt L (?n @ c) pkA skB
      = (case JSON_parse L (JSON_text L w') of Inl e \<Rightarrow> Inl e | Inr j \<Rightarrow> autodecode L j)"
    using len c(2) by (simp add: decrypt_def Buffer_toString_from_string)
  ultimately show ?thesis using c(1) by blast
qed


text \<open>
  With any library that meets the contracts, the envelope of NaN opens to null:
  \<^verbatim>\<open>JSON.stringify\<close> has no text for a number that is not finite.
\<close>

lemma encrypt_NaN_opens_to_null:
  assumes "box_opens L" and "random_length L"
    and "valid_keypair L skA pkA" and "valid_keypair L skB pkB"
    and "JSON_reads_back L JNull"
  shows "\<exists>env. encrypt L (JNum NaN) pkB skA k = (Inr env, Suc k)
           \<and> decrypt L env pkA skB = Inr JNull"
proof -
  have "autoencode L (JNum NaN) = Inr (JNum NaN)"
    and "SerializeJSONProperty L (JNum NaN) = Inr (Some JNull)"
    by simp_all
  then obtain c where "encrypt L (JNum NaN) pkB skA k
        = (Inr (randombytes_buf L (crypto_box_NONCEBYTES L) k @ c), Suc k)"
      "decrypt L (randombytes_buf L (crypto_box_NONCEBYTES L) k @ c) pkA skB
        = (case JSON_parse L (JSON_text L JNull) of Inl e \<Rightarrow> Inl e | Inr j \<Rightarrow> autodecode L j)"
    using encrypt_then_decrypt [OF assms(1,2,3,4), of "JNum NaN" "JNum NaN" JNull k] by blast
  then show ?thesis using assms(5) by (simp add: JSON_reads_back_def)
qed

text \<open>
  The same holds of the negative zero, which \<^verbatim>\<open>JSON.stringify\<close> writes as \<^verbatim>\<open>0\<close>.
\<close>

lemma encrypt_NegZero_opens_to_zero:
  assumes "box_opens L" and "random_length L"
    and "valid_keypair L skA pkA" and "valid_keypair L skB pkB"
    and "JSON_reads_back L (JNum (Finite 0))"
  shows "\<exists>env. encrypt L (JNum NegZero) pkB skA k = (Inr env, Suc k)
           \<and> decrypt L env pkA skB = Inr (JNum (Finite 0))"
proof -
  have "autoencode L (JNum NegZero) = Inr (JNum NegZero)"
    and "SerializeJSONProperty L (JNum NegZero) = Inr (Some (JNum (Finite 0)))"
    by simp_all
  then obtain c where "encrypt L (JNum NegZero) pkB skA k
        = (Inr (randombytes_buf L (crypto_box_NONCEBYTES L) k @ c), Suc k)"
      "decrypt L (randombytes_buf L (crypto_box_NONCEBYTES L) k @ c) pkA skB
        = (case JSON_parse L (JSON_text L (JNum (Finite 0))) of
             Inl e \<Rightarrow> Inl e | Inr j \<Rightarrow> autodecode L j)"
    using encrypt_then_decrypt
      [OF assms(1,2,3,4), of "JNum NegZero" "JNum NegZero" "JNum (Finite 0)" k]
    by blast
  then show ?thesis using assms(5) by (simp add: JSON_reads_back_def)
qed






subsection \<open>The client\<close>

text \<open>
  A response whose status is not 200 rejects the call with the status text only: the body
  of the response is decoded and dropped.
\<close>

lemma rawCall_rejects_non_200:
  assumes "autoencode L (if data = JUndefined then JObj [] else data) = Inr w"
    and "JSON_stringify L w = Inr body"
    and "fetch (baseURL c @ ''/'' @ rpcName) body = Inr r"
    and "JSON_parse L (json_body r) = Inr j" and "autodecode L j = Inr rData"
    and "status r \<noteq> 200"
  shows "rawCall L fetch c rpcName data
    = (Inl (new_Error (statusText r)), [Fetch (baseURL c @ ''/'' @ rpcName) body])"
  using assms by (simp add: rawCall_def Let_def)

subsection \<open>The server\<close>

lemma respond_500_Error: "respond_500 L (JError msg []) = [Respond 500 (JObj [])]"
  by (simp add: respond_500_def)

lemma autoencode_no_user:
  "autoencode L (JObj [(''message'', JStr ''No such user found.'')])
     = Inr (JObj [(''message'', JStr ''No such user found.'')])"
  by (simp add: assign_def Object_prototype_def own_put_def)

lemma handle_handler_error:
  "JSON_parse L body = Inr j \<Longrightarrow> autodecode L j = Inr input \<Longrightarrow> fn input = Inl error \<Longrightarrow>
   handle L fn body = Invoke input # respond_500 L error"
  by (simp add: handle_def)

lemma encryptedHandle_handler_error:
  "JSON_parse L body = Inr j \<Longrightarrow> autodecode L j = Inr decodedBody \<Longrightarrow>
   resolve L serverPrivateKey getUser decodedBody = (Some u, input, None) \<Longrightarrow>
   fn (Some u) input = Inl error \<Longrightarrow>
   encryptedHandle L serverPrivateKey getUser fn body k
     = (InvokeAs (Some u) input # respond_500 L error, k)"
  by (simp add: encryptedHandle_def invoke_and_reply_def)

subsection \<open>The example library meets the contracts\<close>

lemma example_lib_fields:
  "toISOString example_lib = example_toISOString"
  "Date_parse example_lib = example_Date_parse"
  "JSON_text example_lib = example_JSON_text"
  "JSON_parse example_lib = example_JSON_parse"
  "crypto_box_NONCEBYTES example_lib = 24"
  "crypto_box_SECRETKEYBYTES example_lib = 32"
  "crypto_scalarmult_base example_lib = example_scalarmult_base"
  "crypto_box_beforenm example_lib = example_beforenm"
  "randombytes_buf example_lib = (\<lambda>n k. replicate n (word_of_nat k))"
  "crypto_box_easy example_lib = example_box_easy"
  "crypto_box_open_easy example_lib = example_box_open_easy"
  by (simp_all add: example_lib_def)

lemma example_lib_repeating_fields:
  "JSON_text example_lib_repeating = example_JSON_text"
  "crypto_box_NONCEBYTES example_lib_repeating = 24"
  "randombytes_buf example_lib_repeating = (\<lambda>n k. replicate n 0)"
  "crypto_box_easy example_lib_repeating = example_box_easy"
  by (simp_all add: example_lib_repeating_def example_lib_def)

lemma decimal_digits:
  "list_all is_digit (decimal n) \<and> decimal n \<noteq> [] \<and> read_decimal (decimal n) = n"
proof (induction n rule: decimal.induct)
  case (1 n)
  show ?case
  proof (cases "n < 10")
    case True
    then show ?thesis by (simp add: is_digit_def read_decimal_def decimal.simps)
  next
    case False
    have d: "decimal n = decimal (n div 10) @ [char_of (48 + n mod 10)]"
      using False by (simp add: decimal.simps [of n])
    have "n mod 10 \<le> 9" by arith
    then have dg: "is_digit (char_of (48 + n mod 10))" by (simp add: is_digit_def)
    have "n mod 10 < 10" by simp
    then have m: "of_char (char_of (48 + n mod 10 :: nat)) = (48 + n mod 10 :: nat)"
      by simp
    have ih: "list_all is_digit (decimal (n div 10))"
      "read_decimal (decimal (n div 10)) = n div 10"
      using 1 False by simp_all
    show ?thesis
      unfolding d using ih m dg by (simp add: read_decimal_def)
  qed
qed

lemma example_Date_contract: "Date_contract example_lib"
proof -
  have "example_Date_parse (example_toISOString t) = Some t" for t
    using decimal_digits [of "nat \<bar>t\<bar>"]
    by (simp add: example_Date_parse_def example_toISOString_def)
  then show ?thesis by (simp add: Date_contract_def example_lib_fields)
qed

lemma clear_bit_255_simps:
  "length (clear_bit_255 pk) = length pk"
  "clear_bit_255 (clear_bit_255 pk) = clear_bit_255 pk"
  "clear_bit_255 (flip_bit_255 pk) = clear_bit_255 pk"
proof -
  show "length (clear_bit_255 pk) = length pk" by (simp add: clear_bit_255_def)
  show "clear_bit_255 (clear_bit_255 pk) = clear_bit_255 pk"
    by (cases "31 < length pk") (simp_all add: clear_bit_255_def list_update_beyond)
  have "take_bit 7 (b + 128) = take_bit 7 b" for b :: byte
    by transfer (simp add: take_bit_eq_mod)
  then show "clear_bit_255 (flip_bit_255 pk) = clear_bit_255 pk"
    by (cases "31 < length pk")
      (simp_all add: clear_bit_255_def flip_bit_255_def list_update_beyond)
qed

lemma map2_plus_commute: "map2 (+) xs ys = map2 (+) ys (xs :: byte list)"
proof (induction xs arbitrary: ys)
  case Nil
  then show ?case by simp
next
  case (Cons x xs)
  then show ?case by (cases ys) (simp_all add: add.commute)
qed

lemma map2_plus_cancel:
  "length a = length c \<Longrightarrow> length c = length b \<Longrightarrow>
   map2 (+) a c = map2 (+) b (c :: byte list) \<Longrightarrow> a = b"
  by (induction a c b rule: list_induct3) simp_all

lemma example_beforenm_length:
  "example_beforenm pk sk = Inr K \<Longrightarrow> length K = 32"
  by (auto simp: example_beforenm_def example_scalarmult_base_def clear_bit_255_simps
      split: if_splits)

lemma example_key_agreement: "key_agreement example_lib"
  unfolding key_agreement_def
proof (intro allI impI)
  fix skA pkA skB pkB :: "byte list"
  assume a: "valid_keypair example_lib skA pkA \<and> valid_keypair example_lib skB pkB"
  then have l: "length skA = 32" "length skB = 32"
    and p: "pkA = example_scalarmult_base skA" "pkB = example_scalarmult_base skB"
    by (simp_all add: valid_keypair_def example_lib_fields)
  have c: "clear_bit_255 pkA = pkA" "clear_bit_255 pkB = pkB"
    unfolding p by (simp_all add: example_scalarmult_base_def clear_bit_255_simps)
  have lp: "length pkA = 32" "length pkB = 32"
    unfolding p using l by (simp_all add: example_scalarmult_base_def clear_bit_255_simps)
  have "example_beforenm pkB skA = Inr (map2 (+) pkB pkA)"
    using l lp c by (simp add: example_beforenm_def p [symmetric])
  moreover have "example_beforenm pkA skB = Inr (map2 (+) pkB pkA)"
    using l lp c by (simp add: example_beforenm_def p [symmetric] map2_plus_commute [of pkA pkB])
  ultimately show "\<exists>K. crypto_box_beforenm example_lib pkB skA = Inr K
      \<and> crypto_box_beforenm example_lib pkA skB = Inr K"
    by (simp add: example_lib_fields)
qed

lemma example_seal_drop:
  "length K = 32 \<Longrightarrow> length n = 24 \<Longrightarrow> drop 57 (example_seal K n bs) = bs"
  by (simp add: example_seal_def)


lemma example_box_opens: "box_opens example_lib"
  unfolding box_opens_def
proof (intro allI impI)
  fix m and n skA pkA skB pkB :: "byte list"
  assume a: "valid_keypair example_lib skA pkA \<and> valid_keypair example_lib skB pkB
      \<and> length n = crypto_box_NONCEBYTES example_lib"
  then have n: "length n = 24" by (simp add: example_lib_fields)
  obtain K where K: "example_beforenm pkB skA = Inr K" "example_beforenm pkA skB = Inr K"
    using example_key_agreement a unfolding key_agreement_def example_lib_fields by blast
  have l: "length K = 32" using K(1) by (rule example_beforenm_length)
  have "crypto_box_easy example_lib m n pkB skA = Inr (example_seal K n (from_string m))"
    using K n by (simp add: example_lib_fields example_box_easy_def)
  moreover have "crypto_box_open_easy example_lib (example_seal K n (from_string m)) n pkA skB
      = Inr (from_string m)"
    using K n l by (simp add: example_lib_fields example_box_open_easy_def example_seal_drop)
  ultimately show "\<exists>c. crypto_box_easy example_lib m n pkB skA = Inr c
      \<and> crypto_box_open_easy example_lib c n pkA skB = Inr (from_string m)"
    by simp
qed





lemma example_random_length: "random_length example_lib"
  by (simp add: random_length_def example_lib_fields)

lemma clear_bit_255_replicate:
  "take_bit 7 b = b \<Longrightarrow> clear_bit_255 (replicate 32 b) = replicate 32 b"
  by (simp add: clear_bit_255_def list_update_same_conv)

lemma example_keypairs:
  "valid_keypair example_lib example_skA example_pkA"
  "valid_keypair example_lib example_skB example_pkB"
  by (simp_all add: valid_keypair_def example_lib_fields example_skA_def example_pkA_def
      example_skB_def example_pkB_def example_scalarmult_base_def clear_bit_255_replicate)

lemma example_shared_key:
  "example_beforenm example_pkB example_skA = Inr (replicate 32 8)"
  "example_beforenm example_pkA example_skB = Inr (replicate 32 8)"
  by (simp_all add: example_beforenm_def example_skA_def example_pkA_def
      example_skB_def example_pkB_def example_scalarmult_base_def clear_bit_255_replicate)

subsection \<open>Runs on the example library\<close>

lemmas object_simps =
  assign_def Object_prototype_def set_prototype_def is_object_def own_put_def key_before_def
  array_index_def is_digit_def plain_names_def enumeration_order_def

lemma example_JSON_texts:
  "JSON_text example_lib JNull = ''null''"
  "JSON_text example_lib (JBool True) = ''true''"
  "JSON_text example_lib (JNum (Finite 0)) = ''0''"
  "JSON_text example_lib (JArr [JNull]) = ''[null]''"
  "JSON_text example_lib (JObj []) = ''{}''"
  "JSON_text example_lib example_call = example_call_text"
  "JSON_text example_lib example_reply = example_reply_text"
  by (simp_all add: example_lib_fields example_JSON_text_def example_JSON_def example_wire_def
      example_call_def example_reply_def)

lemma example_JSON_parses:
  "JSON_parse example_lib ''null'' = Inr JNull"
  "JSON_parse example_lib ''true'' = Inr (JBool True)"
  "JSON_parse example_lib ''0'' = Inr (JNum (Finite 0))"
  "JSON_parse example_lib ''[null]'' = Inr (JArr [JNull])"
  "JSON_parse example_lib ''{}'' = Inr (JObj [])"
  "JSON_parse example_lib example_call_text = Inr example_call"
  "JSON_parse example_lib example_reply_text = Inr example_reply"
  by (simp_all add: example_lib_fields example_JSON_parse_def example_JSON_def
      example_call_text_def example_reply_text_def quoted_def)

lemma example_value_ok:
  "supported example_value" "JSON_numbers example_value"
  "autoencode example_lib example_value = Inr example_wire"
  "JSON_reads_back example_lib example_wire"
  by (simp_all add: JSON_reads_back_def example_value_def example_wire_def example_lib_fields
      example_toISOString_def example_JSON_text_def example_JSON_parse_def example_JSON_def
      example_call_def example_call_text_def example_reply_def example_reply_text_def quoted_def
      to_hex_def hexdigit_def object_simps startsWith_def valid_time_def decimal.simps
      char_of_def bit_Suc_0_iff)

lemma example_encrypt:
  assumes "crypto_box_easy L = example_box_easy" and "crypto_box_NONCEBYTES L = 24"
    and "length (randombytes_buf L 24 k) = 24"
    and "autoencode L v = Inr w" and "SerializeJSONProperty L w = Inr (Some w')"
  shows "encrypt L v example_pkB example_skA k
     = (Inr (example_envelope (randombytes_buf L 24 k) (JSON_text L w')), Suc k)"
  using assms
  by (simp add: encrypt_def JSON_stringify_def example_envelope_def example_box_easy_def
      example_shared_key Let_def)

lemma example_decrypt:
  "length n = 24 \<Longrightarrow>
   decrypt example_lib (example_envelope n text) example_pkA example_skB
     = (case JSON_parse example_lib text of Inl e \<Rightarrow> Inl e | Inr j \<Rightarrow> autodecode example_lib j)"
  by (simp add: decrypt_def example_envelope_def example_lib_fields example_box_open_easy_def
      example_shared_key example_seal_drop Buffer_toString_from_string)

lemma example_nonce_simps:
  "length (example_nonce k) = 24"
  "randombytes_buf example_lib 24 k = example_nonce k"
  "randombytes_buf example_lib_repeating 24 k = example_nonce 0"
  by (simp_all add: example_nonce_def example_lib_fields example_lib_repeating_fields)

lemma example_call_decodes:
  "autodecode example_lib example_call
     = Inr (JObj [(''payload'', JBytes (example_envelope (example_nonce 0) ''{}'')),
                  (''id'', JStr ''alice'')])"
  by (simp add: example_call_def tag_prefixes from_hex_to_hex startsWith_def object_simps
      del: append.simps)

lemma example_resolve:
  "resolve example_lib example_skB example_getUser
     (JObj [(''payload'', JBytes (example_envelope (example_nonce 0) ''{}'')),
            (''id'', JStr ''alice'')])
   = (Some (RPCUser ''alice'' example_pkA), JObj [], None)"
proof -
  have "decrypt example_lib (example_envelope (example_nonce 0) ''{}'') example_pkA example_skB
      = Inr (JObj [])"
    by (simp add: example_decrypt example_nonce_simps example_JSON_parses)
  then show ?thesis
    by (simp add: resolve_def get_prop_def example_getUser_def decrypt_unknown_def)
qed

text \<open>
  The scenarios of the repository's test suite: an unencrypted call and an encrypted
  call of a handler that returns true, seen from the server and from the client.
\<close>

lemma example_handle_run:
  "handle example_lib (\<lambda>input. Inr (JBool True)) ''{}''
     = [Invoke (JObj []), Respond 200 (JBool True)]"
  by (simp add: handle_def example_JSON_parses)

lemma example_encryptedHandle_run:
  "encryptedHandle example_lib example_skB example_getUser
       (\<lambda>identity input. Inr (JBool True)) example_call_text 0
     = ([InvokeAs (Some (RPCUser ''alice'' example_pkA)) (JObj []), Respond 200 example_reply],
        Suc 0)"
proof -
  have "encrypt example_lib (JBool True) example_pkA example_skB 0
      = (Inr (example_envelope (example_nonce 0) ''true''), Suc 0)"
    by (simp add: encrypt_def JSON_stringify_def example_envelope_def example_lib_fields
        example_JSON_texts [unfolded example_lib_fields] example_nonce_def
        example_box_easy_def example_shared_key Let_def)
  then show ?thesis
    by (simp add: encryptedHandle_def example_JSON_parses example_call_decodes example_resolve
        invoke_and_reply_def example_reply_def object_simps)
qed

lemma example_encryptedCall_run:
  "encryptedCall example_lib example_server example_client ''TestEncrypted'' JUndefined 0
     = (Inr (JBool True), [Fetch ''/rpc/TestEncrypted'' (Some example_call_text)], Suc 0)"
proof -
  have e: "encrypt example_lib (JObj []) example_pkB example_skA 0
      = (Inr (example_envelope (example_nonce 0) ''{}''), Suc 0)"
    using example_encrypt [of example_lib 0 "JObj []" "JObj []" "JObj []"]
    by (simp add: example_lib_fields example_nonce_def present_def
        example_JSON_texts [unfolded example_lib_fields])
  have w: "autoencode example_lib
      (JObj [(''payload'', JBytes (example_envelope (example_nonce 0) ''{}'')),
             (''id'', JStr ''alice'')])
      = Inr example_call"
    by (simp add: example_call_def object_simps)
  have "SerializeJSONProperty example_lib example_call = Inr (Some example_call)"
    by (simp add: example_call_def present_def)
  then have s: "JSON_stringify example_lib example_call = Inr (Some example_call_text)"
    by (simp add: JSON_stringify_def example_JSON_texts)
  have srv: "example_server ''/rpc/TestEncrypted'' (Some example_call_text)
      = Inr \<lparr> status = 200, statusText = ''OK'', json_body = example_reply_text \<rparr>"
    by (simp add: example_server_def example_encryptedHandle_run example_JSON_texts)
  have d: "autodecode example_lib example_reply
      = Inr (JBytes (example_envelope (example_nonce 0) ''true''))"
    by (simp add: example_reply_def tag_prefixes from_hex_to_hex del: append.simps)
  have r: "rawCall example_lib example_server example_client ''TestEncrypted''
      (JObj [(''payload'', JBytes (example_envelope (example_nonce 0) ''{}'')),
             (''id'', JStr ''alice'')])
      = (Inr (JBytes (example_envelope (example_nonce 0) ''true'')),
         [Fetch ''/rpc/TestEncrypted'' (Some example_call_text)])"
    using w s srv d by (simp add: rawCall_def example_client_def example_JSON_parses Let_def)
  have o: "decrypt example_lib (example_envelope (example_nonce 0) ''true'')
        example_pkB example_skA
      = Inr (JBool True)"
    by (simp add: decrypt_def example_envelope_def example_lib_fields example_box_open_easy_def
        example_shared_key example_nonce_def example_seal_drop Buffer_toString_from_string
        example_JSON_parses [unfolded example_lib_fields])
  show ?thesis
    using e r o
    by (simp add: encryptedCall_def isloggedIn_def example_client_def decrypt_unknown_def)
qed


section \<open>Properties of the wire codec\<close>

text \<open>
  C1, as the code has it. For every supported value \<open>v\<close> (any finite nesting of null,
  booleans, numbers, strings without a reserved tag, byte buffers, timestamps, arrays and
  plain objects none of whose properties is named \<^verbatim>\<open>__proto__\<close>, the empty ones
  included), \<open>autoencode\<close> returns a wire form and \<open>autodecode\<close> of that wire form returns
  \<open>v\<close>. In particular null encodes and decodes to null, and a timestamp \<open>t\<close> comes back with
  the same millisecond value. The \<^verbatim>\<open>Date\<close> functions are assumed to be inverse on time
  values.
\<close>

theorem codec_round_trip:
  assumes "Date_contract L" and "supported v" and "valid_time t"
  shows "(\<exists>w. autoencode L v = Inr w \<and> autodecode L w = Inr v)
    \<and> autoencode L JNull = Inr JNull \<and> autodecode L JNull = Inr JNull
    \<and> autoencode L (JDate (Some t)) = Inr (JStr (''date$'' @ toISOString L t))
    \<and> autodecode L (JStr (''date$'' @ toISOString L t)) = Inr (JDate (Some t))"
proof -
  obtain w where "codec_pair L v w" using codec_pair_ex [OF assms(2)] ..
  then have "autoencode L v = Inr w \<and> autodecode L w = Inr v"
    using assms(1) by (simp add: codec_pair_def)
  then have "\<exists>w. autoencode L v = Inr w \<and> autodecode L w = Inr v" ..
  moreover have "Date_parse L (toISOString L t) = Some t"
    using assms(1,3) by (simp add: Date_contract_def)
  then have "autodecode L (JStr (''date$'' @ toISOString L t)) = Inr (JDate (Some t))"
    by (simp add: tag_prefixes del: append.simps)
  ultimately show ?thesis by simp
qed

theorem codec_round_trip_witness:
  "Date_contract example_lib \<and> supported example_value \<and> valid_time 1600000000000
   \<and> (\<exists>w. autoencode example_lib example_value = Inr w
          \<and> autodecode example_lib w = Inr example_value)
   \<and> autodecode example_lib (JStr (''date$'' @ toISOString example_lib 1600000000000))
       = Inr (JDate (Some 1600000000000))"
proof -
  have t: "valid_time 1600000000000" by (simp add: valid_time_def)
  show ?thesis
    using codec_round_trip [OF example_Date_contract example_value_ok(1) t]
      example_Date_contract example_value_ok(1) t
    by simp
qed

text \<open>
  C1 as stated fails on an object with a property named \<^verbatim>\<open>__proto__\<close>. The object
  that \<^verbatim>\<open>JSON.parse\<close> returns for \<^verbatim>\<open>{"__proto__":5}\<close> is a string-keyed mapping of one
  entry; in \<open>autoencode\<close> the assignment \<^verbatim>\<open>t["__proto__"] = 5\<close> calls the setter of
  \<^verbatim>\<open>Object.prototype\<close>, which ignores a number, so the wire form is \<^verbatim>\<open>{}\<close>, and that
  decodes to \<^verbatim>\<open>{}\<close>.
\<close>

theorem codec_round_trip_proto:
  "autoencode example_lib example_proto_number = Inr (JObj [])
   \<and> autodecode example_lib (JObj []) = Inr (JObj [])
   \<and> JObj [] \<noteq> example_proto_number"
  by (simp add: example_proto_number_def object_simps)

text \<open>
  C8, as the code has it. A string that starts with \<^verbatim>\<open>hex$\<close> and does not go on with an
  even number of hexadecimal digits makes \<open>autodecode\<close> throw the error of \<^verbatim>\<open>from_hex\<close>,
  which nothing catches. A string that starts with \<^verbatim>\<open>date$\<close> never makes it throw: the
  result is the \<^verbatim>\<open>Date\<close> of what follows the tag, an Invalid Date when that cannot be
  read as a timestamp.
\<close>

theorem autodecode_malformed_tags:
  assumes "\<not> valid_hex s"
  shows "(\<exists>e. from_hex s = Inl e \<and> autodecode L (JStr (''hex$'' @ s)) = Inl e)
    \<and> autodecode L (JStr (''date$'' @ s')) = Inr (JDate (Date_parse L s'))"
proof -
  obtain e where "from_hex s = Inl e" using from_hex_invalid [OF assms] ..
  then have "from_hex s = Inl e \<and> autodecode L (JStr (''hex$'' @ s)) = Inl e"
    by (simp add: tag_prefixes del: append.simps)
  then have "\<exists>e. from_hex s = Inl e \<and> autodecode L (JStr (''hex$'' @ s)) = Inl e" ..
  moreover have "autodecode L (JStr (''date$'' @ s')) = Inr (JDate (Date_parse L s'))"
    by (simp add: tag_prefixes del: append.simps)
  ultimately show ?thesis by simp
qed

theorem autodecode_malformed_tags_witness:
  "\<not> valid_hex ''zz''
   \<and> autodecode example_lib (JStr ''hex$zz'') = Inl (new_Error ''incomplete input'')
   \<and> autodecode example_lib (JStr ''date$garbage'')
       = Inr (JDate (Date_parse example_lib ''garbage''))"
proof -
  have h: "\<not> valid_hex ''zz''" by (simp add: valid_hex_def hexval_def)
  have f: "from_hex ''zz'' = Inl (new_Error ''incomplete input'')" by (simp add: hexval_def)
  show ?thesis using autodecode_malformed_tags [OF h, of example_lib "''garbage''"] h f by simp
qed

text \<open>
  C8 as stated fails: \<open>garbage\<close> is not a timestamp, and \<open>autodecode\<close> of
  \<^verbatim>\<open>date$garbage\<close> returns a value, the Invalid Date.
\<close>

theorem autodecode_unparseable_date_returns:
  "Date_parse example_lib ''garbage'' = None
   \<and> autodecode example_lib (JStr ''date$garbage'') = Inr (JDate None)"
  by (simp add: example_lib_fields example_Date_parse_def is_digit_def startsWith_def)

text \<open>
  C10, as the code has it. For every supported value \<open>v\<close> (its plain objects have no
  property named \<^verbatim>\<open>__proto__\<close>), \<open>autoencode\<close> returns a value \<open>w\<close> in wire form (only
  null, booleans, numbers, strings, arrays and plain objects: no byte buffer and no
  \<^verbatim>\<open>Date\<close>), and encoding \<open>w\<close> again returns \<open>w\<close>.
\<close>

theorem autoencode_idempotent:
  assumes "supported v"
  shows "\<exists>w. autoencode L v = Inr w \<and> wire_form w \<and> autoencode L w = Inr w"
proof -
  obtain w where "codec_pair L v w" using codec_pair_ex [OF assms] ..
  then have "autoencode L v = Inr w \<and> wire_form w \<and> autoencode L w = Inr w"
    by (simp add: codec_pair_def wire_form_autoencode)
  then show ?thesis ..
qed

theorem autoencode_idempotent_witness:
  "supported example_value
   \<and> autoencode example_lib example_value = Inr example_wire
   \<and> wire_form example_wire
   \<and> autoencode example_lib example_wire = Inr example_wire"
  using autoencode_idempotent [OF example_value_ok(1), of example_lib] example_value_ok(1,3)
  by auto

text \<open>
  C10 as stated fails on an object with a property named \<^verbatim>\<open>__proto__\<close> whose value
  is an object. For the object that \<^verbatim>\<open>JSON.parse\<close> returns for
  \<^verbatim>\<open>{"__proto__":{"a":1}}\<close>, \<open>autoencode\<close> returns an object with no own property and
  the prototype \<^verbatim>\<open>{a: 1}\<close>, which is not a plain object; encoding it again copies the
  inherited property and returns the plain object \<^verbatim>\<open>{a: 1}\<close>.
\<close>

theorem autoencode_twice_proto:
  "autoencode example_lib example_proto_object
     = Inr (JObjP (JObj [(''a'', JNum (Finite 1))]) [])
   \<and> autoencode example_lib (JObjP (JObj [(''a'', JNum (Finite 1))]) [])
     = Inr (JObj [(''a'', JNum (Finite 1))])
   \<and> JObj [(''a'', JNum (Finite 1))] \<noteq> JObjP (JObj [(''a'', JNum (Finite 1))]) []
   \<and> \<not> wire_form (JObjP (JObj [(''a'', JNum (Finite 1))]) [])"
  by (simp add: example_proto_object_def object_simps)

section \<open>Properties of the envelope\<close>

text \<open>
  C2, as the code has it. For every supported value \<open>v\<close> whose numbers are all finite and
  none the negative zero (and whose plain objects have no property named
  \<^verbatim>\<open>__proto__\<close>), and all key pairs (skA, pkA) and (skB, pkB), \<open>encrypt\<close> of \<open>v\<close> to pkB
  under skA returns an envelope, and \<open>decrypt\<close> of that envelope with pkA and skB returns
  \<open>v\<close>. \<open>w\<close> is the wire form of \<open>v\<close>, and \<^verbatim>\<open>JSON.parse\<close> is assumed to read back the text
  of \<open>w\<close>; the box is assumed to open under the matching keys, \<^verbatim>\<open>randombytes_buf\<close> to
  return a nonce of the length asked for, and the \<^verbatim>\<open>Date\<close> functions to be inverse.
\<close>

theorem decrypt_encrypt:
  assumes "box_opens L" and "random_length L" and "Date_contract L"
    and "valid_keypair L skA pkA" and "valid_keypair L skB pkB"
    and "supported v" and "JSON_numbers v"
    and "autoencode L v = Inr w" and "JSON_reads_back L w"
  shows "\<exists>env. encrypt L v pkB skA k = (Inr env, Suc k) \<and> decrypt L env pkA skB = Inr v"
proof -
  have ser: "SerializeJSONProperty L w = Inr (Some w)" and dec: "autodecode L w = Inr v"
    using supported_wire [OF assms(6,7,8)] assms(3) by simp_all
  obtain c where "encrypt L v pkB skA k
        = (Inr (randombytes_buf L (crypto_box_NONCEBYTES L) k @ c), Suc k)"
      "decrypt L (randombytes_buf L (crypto_box_NONCEBYTES L) k @ c) pkA skB
        = (case JSON_parse L (JSON_text L w) of Inl e \<Rightarrow> Inl e | Inr j \<Rightarrow> autodecode L j)"
    using encrypt_then_decrypt [OF assms(1,2,4,5,8) ser] by blast
  then show ?thesis using assms(9) dec by (simp add: JSON_reads_back_def)
qed

theorem decrypt_encrypt_witness:
  "box_opens example_lib \<and> random_length example_lib \<and> Date_contract example_lib
   \<and> valid_keypair example_lib example_skA example_pkA
   \<and> valid_keypair example_lib example_skB example_pkB
   \<and> supported example_value \<and> JSON_numbers example_value
   \<and> autoencode example_lib example_value = Inr example_wire
   \<and> JSON_reads_back example_lib example_wire
   \<and> (\<exists>env. encrypt example_lib example_value example_pkB example_skA 0 = (Inr env, Suc 0)
          \<and> decrypt example_lib env example_pkA example_skB = Inr example_value)"
  using decrypt_encrypt [OF example_box_opens example_random_length example_Date_contract
      example_keypairs example_value_ok, of 0]
    example_box_opens example_random_length example_Date_contract example_keypairs
    example_value_ok
  by simp

text \<open>
  C2 as stated fails on three kinds of values. \<^verbatim>\<open>JSON.stringify\<close> writes NaN as
  \<^verbatim>\<open>null\<close> and the negative zero as \<^verbatim>\<open>0\<close>, so the envelope of NaN opens to null and
  that of -0 to +0; and the envelope of the object of \<^verbatim>\<open>{"__proto__":5}\<close> opens to
  \<^verbatim>\<open>{}\<close>, as in C1.
\<close>

theorem decrypt_encrypt_lossy:
  "encrypt example_lib (JNum NaN) example_pkB example_skA 0
       = (Inr (example_envelope (example_nonce 0) ''null''), Suc 0)
   \<and> decrypt example_lib (example_envelope (example_nonce 0) ''null'') example_pkA example_skB
       = Inr JNull
   \<and> encrypt example_lib (JNum NegZero) example_pkB example_skA 0
       = (Inr (example_envelope (example_nonce 0) ''0''), Suc 0)
   \<and> decrypt example_lib (example_envelope (example_nonce 0) ''0'') example_pkA example_skB
       = Inr (JNum (Finite 0))
   \<and> JNum (Finite 0) \<noteq> JNum NegZero
   \<and> encrypt example_lib example_proto_number example_pkB example_skA 0
       = (Inr (example_envelope (example_nonce 0) ''{}''), Suc 0)
   \<and> decrypt example_lib (example_envelope (example_nonce 0) ''{}'') example_pkA example_skB
       = Inr (JObj [])
   \<and> JObj [] \<noteq> example_proto_number"
proof -
  have "encrypt example_lib (JNum NaN) example_pkB example_skA 0
      = (Inr (example_envelope (example_nonce 0) ''null''), Suc 0)"
    using example_encrypt [of example_lib 0 "JNum NaN" "JNum NaN" JNull]
    by (simp add: example_lib_fields example_nonce_def
        example_JSON_texts [unfolded example_lib_fields])
  moreover have "encrypt example_lib (JNum NegZero) example_pkB example_skA 0
      = (Inr (example_envelope (example_nonce 0) ''0''), Suc 0)"
    using example_encrypt [of example_lib 0 "JNum NegZero" "JNum NegZero" "JNum (Finite 0)"]
    by (simp add: example_lib_fields example_nonce_def
        example_JSON_texts [unfolded example_lib_fields])
  moreover have "encrypt example_lib example_proto_number example_pkB example_skA 0
      = (Inr (example_envelope (example_nonce 0) ''{}''), Suc 0)"
    using example_encrypt [of example_lib 0 example_proto_number "JObj []" "JObj []"]
    by (simp add: example_lib_fields example_nonce_def example_proto_number_def object_simps
        present_def example_JSON_texts [unfolded example_lib_fields])
  moreover have "decrypt example_lib (example_envelope (example_nonce 0) ''null'')
      example_pkA example_skB = Inr JNull"
    "decrypt example_lib (example_envelope (example_nonce 0) ''0'')
      example_pkA example_skB = Inr (JNum (Finite 0))"
    "decrypt example_lib (example_envelope (example_nonce 0) ''{}'')
      example_pkA example_skB = Inr (JObj [])"
    by (simp_all add: example_decrypt example_nonce_simps example_JSON_parses)
  ultimately show ?thesis by (simp add: example_proto_number_def)
qed




text \<open>
  C7, as the code has it. For every supported value \<open>v\<close> whose numbers are all finite and
  none the negative zero, and fixed keys, two calls of \<open>encrypt\<close> each draw a nonce from
  \<^verbatim>\<open>randombytes_buf\<close> (the calls number \<open>k1\<close> and \<open>k2\<close> of the run) and put it in front of
  the box; the two envelopes are equal exactly when the two nonces are, and each opens
  under the matching keys to \<open>v\<close>. The assumptions on the libraries are those of C2.
\<close>

theorem encrypt_fresh_nonce:
  assumes "box_opens L" and "random_length L" and "Date_contract L"
    and "valid_keypair L skA pkA" and "valid_keypair L skB pkB"
    and "supported v" and "JSON_numbers v"
    and "autoencode L v = Inr w" and "JSON_reads_back L w"
  shows "\<exists>e1 e2. encrypt L v pkB skA k1 = (Inr e1, Suc k1)
           \<and> encrypt L v pkB skA k2 = (Inr e2, Suc k2)
           \<and> take (crypto_box_NONCEBYTES L) e1 = randombytes_buf L (crypto_box_NONCEBYTES L) k1
           \<and> take (crypto_box_NONCEBYTES L) e2 = randombytes_buf L (crypto_box_NONCEBYTES L) k2
           \<and> (e1 = e2) = (randombytes_buf L (crypto_box_NONCEBYTES L) k1
                            = randombytes_buf L (crypto_box_NONCEBYTES L) k2)
           \<and> decrypt L e1 pkA skB = Inr v \<and> decrypt L e2 pkA skB = Inr v"
proof -
  let ?n1 = "randombytes_buf L (crypto_box_NONCEBYTES L) k1"
  let ?n2 = "randombytes_buf L (crypto_box_NONCEBYTES L) k2"
  have ser: "SerializeJSONProperty L w = Inr (Some w)" and dec: "autodecode L w = Inr v"
    using supported_wire [OF assms(6,7,8)] assms(3) by simp_all
  have rb: "(case JSON_parse L (JSON_text L w) of Inl e \<Rightarrow> Inl e | Inr j \<Rightarrow> autodecode L j)
      = Inr v"
    using assms(9) dec by (simp add: JSON_reads_back_def)
  obtain c1 where c1: "crypto_box_easy L (JSON_text L w) ?n1 pkB skA = Inr c1"
      "encrypt L v pkB skA k1 = (Inr (?n1 @ c1), Suc k1)"
      "decrypt L (?n1 @ c1) pkA skB = Inr v"
    using encrypt_then_decrypt [OF assms(1,2,4,5,8) ser, of k1] rb by auto
  obtain c2 where c2: "crypto_box_easy L (JSON_text L w) ?n2 pkB skA = Inr c2"
      "encrypt L v pkB skA k2 = (Inr (?n2 @ c2), Suc k2)"
      "decrypt L (?n2 @ c2) pkA skB = Inr v"
    using encrypt_then_decrypt [OF assms(1,2,4,5,8) ser, of k2] rb by auto
  have len: "length ?n1 = crypto_box_NONCEBYTES L" "length ?n2 = crypto_box_NONCEBYTES L"
    using assms(2) by (simp_all add: random_length_def)
  have "?n1 = ?n2 \<Longrightarrow> c1 = c2" using c1(1) c2(1) by simp
  then have "(?n1 @ c1 = ?n2 @ c2) = (?n1 = ?n2)" using len by auto
  then show ?thesis using c1 c2 len by simp
qed

theorem encrypt_fresh_nonce_witness:
  "\<exists>e1 e2. encrypt example_lib example_value example_pkB example_skA 0 = (Inr e1, Suc 0)
          \<and> encrypt example_lib example_value example_pkB example_skA 1 = (Inr e2, Suc 1)
          \<and> take 24 e1 = example_nonce 0 \<and> take 24 e2 = example_nonce 1
          \<and> e1 \<noteq> e2
          \<and> decrypt example_lib e1 example_pkA example_skB = Inr example_value
          \<and> decrypt example_lib e2 example_pkA example_skB = Inr example_value"
proof -
  have "example_nonce 0 \<noteq> example_nonce 1" by (simp add: example_nonce_def)
  then show ?thesis
    using encrypt_fresh_nonce [OF example_box_opens example_random_length example_Date_contract
        example_keypairs example_value_ok, of 0 1]
    by (simp add: example_lib_fields(5) example_nonce_simps)
qed

text \<open>
  C7 as stated fails in both halves. The two envelopes of \<^verbatim>\<open>[NaN]\<close> open to
  \<^verbatim>\<open>[null]\<close>, as in C2. And nothing in \<open>encrypt\<close> keeps a nonce from repeating: in a
  run in which \<^verbatim>\<open>randombytes_buf\<close> returns the same 24 bytes to two calls, the two
  envelopes of a value are the same.
\<close>

theorem encrypt_twice_refuted:
  "supported (JArr [JNum NaN])
   \<and> encrypt example_lib (JArr [JNum NaN]) example_pkB example_skA 0
       = (Inr (example_envelope (example_nonce 0) ''[null]''), Suc 0)
   \<and> encrypt example_lib (JArr [JNum NaN]) example_pkB example_skA 1
       = (Inr (example_envelope (example_nonce 1) ''[null]''), Suc 1)
   \<and> decrypt example_lib (example_envelope (example_nonce 0) ''[null]'') example_pkA example_skB
       = Inr (JArr [JNull])
   \<and> decrypt example_lib (example_envelope (example_nonce 1) ''[null]'') example_pkA example_skB
       = Inr (JArr [JNull])
   \<and> supported (JBool True)
   \<and> randombytes_buf example_lib_repeating 24 0 = randombytes_buf example_lib_repeating 24 1
   \<and> encrypt example_lib_repeating (JBool True) example_pkB example_skA 0
       = (Inr (example_envelope (example_nonce 0) ''true''), Suc 0)
   \<and> encrypt example_lib_repeating (JBool True) example_pkB example_skA 1
       = (Inr (example_envelope (example_nonce 0) ''true''), Suc 1)"
proof -
  have "encrypt example_lib (JArr [JNum NaN]) example_pkB example_skA k
      = (Inr (example_envelope (example_nonce k) ''[null]''), Suc k)" for k
    using example_encrypt [of example_lib k "JArr [JNum NaN]" "JArr [JNum NaN]" "JArr [JNull]"]
    by (simp add: example_lib_fields example_nonce_def
        example_JSON_texts [unfolded example_lib_fields])
  moreover have "decrypt example_lib (example_envelope (example_nonce k) ''[null]'')
      example_pkA example_skB = Inr (JArr [JNull])" for k
    by (simp add: example_decrypt example_nonce_simps example_JSON_parses)
  moreover have "encrypt example_lib_repeating (JBool True) example_pkB example_skA k
      = (Inr (example_envelope (example_nonce 0) ''true''), Suc k)" for k
    using example_encrypt [of example_lib_repeating k "JBool True" "JBool True" "JBool True"]
    by (simp add: example_lib_repeating_fields example_nonce_def example_JSON_text_def
        example_JSON_def)
  ultimately show ?thesis by (simp add: example_lib_repeating_fields)
qed

section \<open>Properties of the client\<close>

text \<open>
  C5. When any of the user identifier, the private key, the public key or the server key
  is absent, the function that \<^verbatim>\<open>encryptedCall\<close> returns rejects at once with the error
  \<^verbatim>\<open>new Error()\<close>, whatever its input: no request is issued and no nonce is drawn.
\<close>

theorem encryptedCall_not_logged_in:
  assumes "userID c = None \<or> privateKey c = None \<or> publicKey c = None \<or> serverKey c = None"
  shows "encryptedCall L fetch c name args k = (Inl (new_Error []), [], k)"
  using assms by (auto simp: encryptedCall_def isloggedIn_def)

theorem encryptedCall_not_logged_in_witness:
  "serverKey (example_client\<lparr>serverKey := None\<rparr>) = None
   \<and> encryptedCall example_lib example_server (example_client\<lparr>serverKey := None\<rparr>)
         ''TestEncrypted'' JUndefined 0
       = (Inl (new_Error []), [], 0)"
  using encryptedCall_not_logged_in
    [of "example_client\<lparr>serverKey := None\<rparr>" example_lib example_server "''TestEncrypted''"
      JUndefined 0]
  by simp

text \<open>
  C9. \<^verbatim>\<open>isloggedIn\<close> is true exactly when all four fields of the session state are
  present. \<^verbatim>\<open>logout\<close> clears the four fields and nothing else, so that \<^verbatim>\<open>isloggedIn\<close> is
  false afterwards and an encrypted call on the same client is rejected without a request.
\<close>

theorem isloggedIn_logout:
  "isloggedIn c
     = (\<exists>u sk pk srv. userID c = Some u \<and> privateKey c = Some sk
          \<and> publicKey c = Some pk \<and> serverKey c = Some srv)
   \<and> userID (logout c) = None \<and> privateKey (logout c) = None
   \<and> publicKey (logout c) = None \<and> serverKey (logout c) = None
   \<and> baseURL (logout c) = baseURL c
   \<and> \<not> isloggedIn (logout c)
   \<and> encryptedCall L fetch (logout c) name args k = (Inl (new_Error []), [], k)"
  by (auto simp: isloggedIn_def logout_def encryptedCall_def)

section \<open>Properties of the server\<close>

text \<open>
  C3 does not hold of the code. When \<^verbatim>\<open>getUser\<close> fails for the identifier of the request,
  the encrypted handler writes the 401 response with the fixed message and goes on: it
  calls the handler function with an undefined identity and an undefined input, and then
  writes a 500 response, for the error of the handler function or for the TypeError of
  reading \<^verbatim>\<open>identity.publicKey\<close>.
\<close>

theorem encryptedHandle_lookup_failure:
  assumes "JSON_parse L body = Inr j" and "autodecode L j = Inr decodedBody"
    and "get_prop decodedBody ''id'' = Inr uid" and "getUser uid = Inl e"
  shows "encryptedHandle L serverPrivateKey getUser fn body k =
     (Respond 401 (JObj [(''message'', JStr ''No such user found.'')])
      # InvokeAs None JUndefined
      # respond_500 L (case fn None JUndefined of
                         Inl error \<Rightarrow> error | Inr out \<Rightarrow> new_Error ''TypeError''),
      k)"
proof -
  have r: "resolve L serverPrivateKey getUser decodedBody = (None, JUndefined, Some e)"
    using assms(3,4) by (simp add: resolve_def)
  have i: "invoke_and_reply L serverPrivateKey fn None JUndefined k =
     (InvokeAs None JUndefined
      # respond_500 L (case fn None JUndefined of
                         Inl error \<Rightarrow> error | Inr out \<Rightarrow> new_Error ''TypeError''),
      k)"
    by (simp add: invoke_and_reply_def Let_def split: sum.splits)
  show ?thesis
    using assms(1,2) r i
    by (simp add: encryptedHandle_def autoencode_no_user del: autoencode.simps)
qed

theorem encryptedHandle_lookup_failure_witness:
  "encryptedHandle example_lib example_skB (\<lambda>uid. Inl (new_Error ''unknown user''))
       (\<lambda>identity input. Inr (JBool True)) example_call_text 0
     = ([Respond 401 (JObj [(''message'', JStr ''No such user found.'')]),
         InvokeAs None JUndefined,
         Respond 500 (JObj [])], 0)"
proof -
  have g: "get_prop
       (JObj [(''payload'', JBytes (example_envelope (example_nonce 0) ''{}'')),
              (''id'', JStr ''alice'')])
       ''id'' = Inr (JStr ''alice'')"
    by (simp add: get_prop_def)
  show ?thesis
    using encryptedHandle_lookup_failure [OF example_JSON_parses(6) example_call_decodes g,
        of "\<lambda>uid. Inl (new_Error ''unknown user'')" "new_Error ''unknown user''" example_skB
          "\<lambda>identity input. Inr (JBool True)" 0]
    by (simp add: new_Error_def respond_500_Error)
qed

text \<open>
  C6, as the code has it. The body of the 500 response is \<open>autoencode\<close> of the value the
  handler function threw. When that value is an \<^verbatim>\<open>Error\<close> with no enumerable property (as
  \<^verbatim>\<open>new Error(message)\<close> is), both handlers call \<^verbatim>\<open>res.status(500).json({})\<close>,
  whatever the message. In the unencrypted handler, and in the encrypted handler when the
  lookup of the caller and the decryption of the payload have succeeded, that is the
  response. When the lookup or the decryption has failed, the encrypted handler has
  written the 401 response before it calls the handler function (C3), and the 500
  response follows it.
\<close>

theorem handler_error_response:
  assumes "JSON_parse L body = Inr j" and "autodecode L j = Inr input"
    and "fn input = Inl (JError msg [])"
    and "JSON_parse L body' = Inr j'" and "autodecode L j' = Inr decodedBody"
    and "resolve L serverPrivateKey getUser decodedBody = (identity, input', failure)"
    and "efn identity input' = Inl (JError msg' [])"
  shows "handle L fn body = [Invoke input, Respond 500 (JObj [])]
    \<and> encryptedHandle L serverPrivateKey getUser efn body' k
        = ((case failure of
              None \<Rightarrow> []
            | Some e \<Rightarrow> [Respond 401 (JObj [(''message'', JStr ''No such user found.'')])])
           @ [InvokeAs identity input', Respond 500 (JObj [])], k)"
proof -
  have "handle L fn body = [Invoke input, Respond 500 (JObj [])]"
    using assms(1,2,3) by (simp add: handle_def respond_500_Error)
  moreover have "encryptedHandle L serverPrivateKey getUser efn body' k
      = ((case failure of
            None \<Rightarrow> []
          | Some e \<Rightarrow> [Respond 401 (JObj [(''message'', JStr ''No such user found.'')])])
         @ [InvokeAs identity input', Respond 500 (JObj [])], k)"
    using assms(4,5,6,7)
    by (cases failure)
      (simp_all add: encryptedHandle_def invoke_and_reply_def respond_500_Error
        autoencode_no_user del: autoencode.simps)
  ultimately show ?thesis by simp
qed

theorem handler_error_response_witness:
  "handle example_lib (\<lambda>input. Inl (JError ''oh no'' [])) ''{}''
     = [Invoke (JObj []), Respond 500 (JObj [])]
   \<and> encryptedHandle example_lib example_skB example_getUser
         (\<lambda>identity input. Inl (JError ''oh no'' [])) example_call_text 0
     = ([InvokeAs (Some (RPCUser ''alice'' example_pkA)) (JObj []), Respond 500 (JObj [])], 0)
   \<and> encryptedHandle example_lib example_skB (\<lambda>uid. Inl (new_Error ''unknown user''))
         (\<lambda>identity input. Inl (JError ''oh no'' [])) example_call_text 0
     = ([Respond 401 (JObj [(''message'', JStr ''No such user found.'')]),
         InvokeAs None JUndefined, Respond 500 (JObj [])], 0)"
proof -
  have d: "autodecode example_lib (JObj []) = Inr (JObj [])" by simp
  have r: "resolve example_lib example_skB (\<lambda>uid. Inl (new_Error ''unknown user''))
       (JObj [(''payload'', JBytes (example_envelope (example_nonce 0) ''{}'')),
              (''id'', JStr ''alice'')])
     = (None, JUndefined, Some (new_Error ''unknown user''))"
    by (simp add: resolve_def get_prop_def)
  show ?thesis
    using handler_error_response
      [of example_lib "''{}''" "JObj []" "JObj []"
        "\<lambda>input. Inl (JError ''oh no'' [])" "''oh no''"
        example_call_text example_call
        "JObj [(''payload'', JBytes (example_envelope (example_nonce 0) ''{}'')),
               (''id'', JStr ''alice'')]"
        example_skB example_getUser "Some (RPCUser ''alice'' example_pkA)" "JObj []" None
        "\<lambda>identity input. Inl (JError ''oh no'' [])" "''oh no''" 0]
      handler_error_response
      [of example_lib "''{}''" "JObj []" "JObj []"
        "\<lambda>input. Inl (JError ''oh no'' [])" "''oh no''"
        example_call_text example_call
        "JObj [(''payload'', JBytes (example_envelope (example_nonce 0) ''{}'')),
               (''id'', JStr ''alice'')]"
        example_skB "\<lambda>uid. Inl (new_Error ''unknown user'')" None JUndefined
        "Some (new_Error ''unknown user'')"
        "\<lambda>identity input. Inl (JError ''oh no'' [])" "''oh no''" 0]
      example_JSON_parses(5,6) d example_call_decodes example_resolve r
    by simp
qed

text \<open>
  C6 as stated fails: the enumerable properties of the thrown value are sent to the
  client, by both handlers, and a thrown object with an enumerable message is sent with
  its message.
\<close>

theorem handler_error_is_encoded:
  "handle example_lib (\<lambda>input. Inl example_error) ''null''
     = [Invoke JNull,
        Respond 500 (JObj [(''code'', JStr ''ENOENT''), (''path'', JStr ''/srv/keys/server.key'')])]
   \<and> handle example_lib (\<lambda>input. Inl (JObj [(''message'', JStr ''oh no'')])) ''null''
     = [Invoke JNull, Respond 500 (JObj [(''message'', JStr ''oh no'')])]
   \<and> encryptedHandle example_lib example_skB example_getUser
        (\<lambda>identity input. Inl example_error) example_call_text 0
     = ([InvokeAs (Some (RPCUser ''alice'' example_pkA)) (JObj []),
         Respond 500 (JObj [(''code'', JStr ''ENOENT''), (''path'', JStr ''/srv/keys/server.key'')])],
        0)"
proof -
  have d: "autodecode example_lib JNull = Inr JNull" by simp
  have r: "respond_500 example_lib example_error
      = [Respond 500 (JObj [(''code'', JStr ''ENOENT''), (''path'', JStr ''/srv/keys/server.key'')])]"
    by (simp add: respond_500_def example_error_def object_simps)
  have r': "respond_500 example_lib (JObj [(''message'', JStr ''oh no'')])
      = [Respond 500 (JObj [(''message'', JStr ''oh no'')])]"
    by (simp add: respond_500_def object_simps)
  have "handle example_lib (\<lambda>input. Inl example_error) ''null''
      = Invoke JNull # respond_500 example_lib example_error"
    by (rule handle_handler_error [OF example_JSON_parses(1) d]) simp
  moreover have "handle example_lib (\<lambda>input. Inl (JObj [(''message'', JStr ''oh no'')])) ''null''
      = Invoke JNull # respond_500 example_lib (JObj [(''message'', JStr ''oh no'')])"
    by (rule handle_handler_error [OF example_JSON_parses(1) d]) simp
  moreover have "encryptedHandle example_lib example_skB example_getUser
        (\<lambda>identity input. Inl example_error) example_call_text 0
      = (InvokeAs (Some (RPCUser ''alice'' example_pkA)) (JObj [])
         # respond_500 example_lib example_error, 0)"
    by (rule encryptedHandle_handler_error
        [OF example_JSON_parses(6) example_call_decodes example_resolve]) simp
  ultimately show ?thesis using r r' by simp
qed

end
